theory Spec2Isabelle
  imports Main "HOL-Library.AList"
begin

section \<open>Values shared by the whole module\<close>

text \<open>
  The module \<^verbatim>\<open>experiments_manager.py\<close> holds one class, \<^verbatim>\<open>Experiment\<close>. Its methods
  act on three pieces of the outside world: the filesystem (through \<^verbatim>\<open>pathlib\<close> and
  \<^verbatim>\<open>open\<close>), external processes (through \<^verbatim>\<open>subprocess.run\<close>) and the logging
  configuration of the process. Each of them is a component of the record \<open>world\<close> below,
  and every method is a function from a world to a result and a new world. A raised
  exception is the \<open>Inl\<close> branch of the result; the world that comes with it holds the
  effects that happened before the raise.
\<close>

datatype error =
    TypeError
  | AttributeError string
  | FileExistsError
  | FileNotFoundError
  | NotADirectoryError
  | IsADirectoryError
  | PermissionError
  | CalledProcessError int "string list"

text \<open>The subclasses of Python's \<^verbatim>\<open>OSError\<close> among the errors above.\<close>

fun is_filesystem_error :: "error \<Rightarrow> bool" where
  "is_filesystem_error FileExistsError = True"
| "is_filesystem_error FileNotFoundError = True"
| "is_filesystem_error NotADirectoryError = True"
| "is_filesystem_error IsADirectoryError = True"
| "is_filesystem_error PermissionError = True"
| "is_filesystem_error _ = False"

text \<open>An attribute of the instance that may never have been assigned.\<close>

datatype 'a attr = Unset | Value 'a

definition newline :: char where
  "newline = CHR 0x0A"

section \<open>Paths and the filesystem\<close>

text \<open>
  A path is the list of its components below the filesystem root. The operator \<^verbatim>\<open>/\<close>
  of \<^verbatim>\<open>pathlib\<close> with a plain name on the right appends one component. The names
  given to the class (group, identifier, outputs name) are such plain names: a name that
  holds a separator, is empty or is \<^verbatim>\<open>.\<close> or \<^verbatim>\<open>..\<close> is outside this model.
\<close>

type_synonym path = "string list"

definition LOGS_NAME :: string where
  "LOGS_NAME = ''logs''"

definition path_name :: "path \<Rightarrow> string" where
  "path_name p = (if p = [] then [] else last p)"

datatype node = Dir | File string

text \<open>
  The filesystem is an association list from paths to nodes; the root \<open>[]\<close> is always a
  directory. \<open>wf_fs\<close> says that every entry lies in a directory.
\<close>

type_synonym filesystem = "(path \<times> node) list"

definition lookup :: "filesystem \<Rightarrow> path \<Rightarrow> node option" where
  "lookup fs p = (if p = [] then Some Dir else map_of fs p)"

definition wf_fs :: "filesystem \<Rightarrow> bool" where
  "wf_fs fs = list_all (\<lambda>(p, n). lookup fs (butlast p) = Some Dir) fs"

definition path_exists :: "filesystem \<Rightarrow> path \<Rightarrow> bool" where
  "path_exists fs p = (lookup fs p \<noteq> None)"

definition is_dir :: "filesystem \<Rightarrow> path \<Rightarrow> bool" where
  "is_dir fs p = (lookup fs p = Some Dir)"

text \<open>\<^verbatim>\<open>Path.iterdir\<close>: the immediate entries of a directory.\<close>

definition iterdir :: "filesystem \<Rightarrow> path \<Rightarrow> path list" where
  "iterdir fs p = remdups (filter (\<lambda>q. q \<noteq> [] \<and> butlast q = p) (map fst fs))"

text \<open>The system call \<^verbatim>\<open>mkdir(2)\<close>: the parent is resolved first, then the leaf.\<close>

definition os_mkdir :: "filesystem \<Rightarrow> path \<Rightarrow> error + filesystem" where
  "os_mkdir fs p =
     (if p = [] then Inl FileExistsError
      else case lookup fs (butlast p) of
             None \<Rightarrow> Inl FileNotFoundError
           | Some (File _) \<Rightarrow> Inl NotADirectoryError
           | Some Dir \<Rightarrow>
               (case lookup fs p of
                  None \<Rightarrow> Inr (AList.update p Dir fs)
                | Some _ \<Rightarrow> Inl FileExistsError))"

text \<open>
  \<^verbatim>\<open>Path.mkdir(parents, exist_ok)\<close> of \<^verbatim>\<open>pathlib\<close>: try the system call; on a missing
  parent create the parents and try again; on any other error succeed only when
  \<^verbatim>\<open>exist_ok\<close> is set and the path is a directory.
\<close>

function Path_mkdir :: "bool \<Rightarrow> bool \<Rightarrow> filesystem \<Rightarrow> path \<Rightarrow> (error + unit) \<times> filesystem" where
  "Path_mkdir parents exist_ok fs p =
     (case os_mkdir fs p of
        Inr fs' \<Rightarrow> (Inr (), fs')
      | Inl e \<Rightarrow>
          if e = FileNotFoundError then
            (if \<not> parents \<or> p = [] then (Inl e, fs)
             else (case Path_mkdir True True fs (butlast p) of
                     (Inl e', fs') \<Rightarrow> (Inl e', fs')
                   | (Inr _, fs') \<Rightarrow> Path_mkdir False exist_ok fs' p))
          else if \<not> exist_ok \<or> \<not> is_dir fs p then (Inl e, fs)
          else (Inr (), fs))"
  by pat_completeness auto
termination
  by (relation "measure (\<lambda>(parents, exist_ok, fs, p). 2 * length p + (if parents then 1 else 0))")
     auto

text \<open>
  \<^verbatim>\<open>open(p, 'a')\<close> creates the file when it is absent; \<^verbatim>\<open>f.write\<close> then appends to
  it.
\<close>

definition open_append :: "filesystem \<Rightarrow> path \<Rightarrow> error + filesystem" where
  "open_append fs p =
     (if p = [] then Inl IsADirectoryError
      else case lookup fs (butlast p) of
             None \<Rightarrow> Inl FileNotFoundError
           | Some (File _) \<Rightarrow> Inl NotADirectoryError
           | Some Dir \<Rightarrow>
               (case lookup fs p of
                  None \<Rightarrow> Inr (AList.update p (File []) fs)
                | Some (File _) \<Rightarrow> Inr fs
                | Some Dir \<Rightarrow> Inl IsADirectoryError))"

definition file_write :: "filesystem \<Rightarrow> path \<Rightarrow> string \<Rightarrow> filesystem" where
  "file_write fs p data =
     (case lookup fs p of
        Some (File c) \<Rightarrow> AList.update p (File (c @ data)) fs
      | _ \<Rightarrow> fs)"

section \<open>The clock and the timestamp\<close>

text \<open>
  \<^verbatim>\<open>datetime.datetime.now()\<close> reads the wall clock of the world: a naive local date and
  time. \<open>str_nat\<close> is the decimal rendering of a number in an f-string, and
  \<open>strftime\<close> is the rendering under the format \<^verbatim>\<open>%Y-%m-%d_%H-%M-%S\<close> (for the years
  from 1000 on, where \<^verbatim>\<open>%Y\<close> has four digits on every platform).
\<close>

record datetime =
  year :: nat
  month :: nat
  day :: nat
  hour :: nat
  minute :: nat
  second :: nat
  microsecond :: nat

definition digit_char :: "nat \<Rightarrow> char" where
  "digit_char d = ''0123456789'' ! d"

fun str_nat :: "nat \<Rightarrow> string" where
  "str_nat n = (if n < 10 then [digit_char n] else str_nat (n div 10) @ [digit_char (n mod 10)])"

declare str_nat.simps [simp del]

definition zfill :: "nat \<Rightarrow> string \<Rightarrow> string" where
  "zfill w s = replicate (w - length s) (CHR ''0'') @ s"

definition strftime :: "datetime \<Rightarrow> string" where
  "strftime t =
     zfill 4 (str_nat (year t)) @ ''-'' @ zfill 2 (str_nat (month t)) @ ''-'' @
     zfill 2 (str_nat (day t)) @ ''_'' @ zfill 2 (str_nat (hour t)) @ ''-'' @
     zfill 2 (str_nat (minute t)) @ ''-'' @ zfill 2 (str_nat (second t))"

text \<open>The fields of a date and time that \<^verbatim>\<open>datetime\<close> can hold.\<close>

definition valid_datetime :: "datetime \<Rightarrow> bool" where
  "valid_datetime t =
     (1000 \<le> year t \<and> year t \<le> 9999 \<and> 1 \<le> month t \<and> month t \<le> 12 \<and>
      1 \<le> day t \<and> day t \<le> 31 \<and> hour t < 24 \<and> minute t < 60 \<and> second t < 60 \<and>
      microsecond t < 1000000)"

text \<open>
  The distance of two clock readings, as the subtraction of two \<^verbatim>\<open>datetime\<close> values
  computes it: days by the proleptic Gregorian ordinal, then seconds and microseconds.
\<close>

definition is_leap :: "nat \<Rightarrow> bool" where
  "is_leap y = (y mod 4 = 0 \<and> (y mod 100 \<noteq> 0 \<or> y mod 400 = 0))"

definition days_before_year :: "nat \<Rightarrow> int" where
  "days_before_year y =
     (let z = int y - 1 in z * 365 + z div 4 - z div 100 + z div 400)"

definition days_before_month :: "nat \<Rightarrow> nat \<Rightarrow> int" where
  "days_before_month y m =
     int ([0, 0, 31, 59, 90, 120, 151, 181, 212, 243, 273, 304, 334] ! (if m \<le> 12 then m else 0))
       + (if m > 2 \<and> is_leap y then 1 else 0)"

definition toordinal :: "datetime \<Rightarrow> int" where
  "toordinal t = days_before_year (year t) + days_before_month (year t) (month t) + int (day t)"

definition total_microseconds :: "datetime \<Rightarrow> int" where
  "total_microseconds t =
     ((toordinal t * 24 + int (hour t)) * 60 + int (minute t)) * 60 * 1000000
       + int (second t) * 1000000 + int (microsecond t)"

section \<open>Logging\<close>

datatype level = NOTSET | DEBUG | INFO | WARNING | ERROR | CRITICAL

datatype logger = RootLogger | NamedLogger string

record handler =
  h_filename :: string
  h_level :: level
  h_format :: "string option"

text \<open>
  One call on a logger. \<open>le_exc_info\<close> is the exception whose detail and traceback
  \<^verbatim>\<open>Logger.exception\<close> attaches to the record.
\<close>

record log_entry =
  le_logger :: logger
  le_level :: level
  le_message :: string
  le_exc_info :: "error option"

section \<open>The world\<close>

text \<open>
  \<open>repo\<close> is the state that external commands read and change (the git repository in
  the working directory); the experiment tree in \<open>files\<close> is out of their reach.
  \<open>proc_calls\<close> is the trace of the commands started, each with its working directory.
\<close>

record 'g world =
  files :: filesystem
  cwd :: path
  clock :: datetime
  repo :: 'g
  proc_calls :: "(string list \<times> path) list"
  root_level :: level
  root_handlers :: "handler list"
  log_calls :: "log_entry list"

definition log_info :: "logger \<Rightarrow> string \<Rightarrow> 'g world \<Rightarrow> 'g world" where
  "log_info lg msg w =
     w\<lparr>log_calls := log_calls w @
        [\<lparr>le_logger = lg, le_level = INFO, le_message = msg, le_exc_info = None\<rparr>]\<rparr>"

definition log_exception :: "logger \<Rightarrow> string \<Rightarrow> error \<Rightarrow> 'g world \<Rightarrow> 'g world" where
  "log_exception lg msg e w =
     w\<lparr>log_calls := log_calls w @
        [\<lparr>le_logger = lg, le_level = ERROR, le_message = msg, le_exc_info = Some e\<rparr>]\<rparr>"

text \<open>
  The constructor \<^verbatim>\<open>logging.FileHandler(filename, mode='a', ...)\<close> of the standard
  library: the file name is a required argument, and the file is opened at once.
\<close>

definition logging_FileHandler :: "string list \<Rightarrow> 'g world \<Rightarrow> (error + handler) \<times> 'g world" where
  "logging_FileHandler args w =
     (case args of
        [] \<Rightarrow> (Inl TypeError, w)
      | filename # _ \<Rightarrow>
          (case open_append (files w) (cwd w @ [filename]) of
             Inl e \<Rightarrow> (Inl e, w)
           | Inr fs' \<Rightarrow>
               (Inr \<lparr>h_filename = filename, h_level = NOTSET, h_format = None\<rparr>,
                w\<lparr>files := fs'\<rparr>)))"

section \<open>External processes\<close>

text \<open>
  What the operating system does with a command is a parameter \<open>sh\<close> of the model: the
  command either cannot be started, or runs and exits with a status and its standard
  output. \<^verbatim>\<open>subprocess.run\<close> raises \<^verbatim>\<open>CalledProcessError\<close> on a non-zero status when
  \<^verbatim>\<open>check\<close> is set.
\<close>

datatype proc_outcome = Exited int string | SpawnFailed error

type_synonym 'g shell = "string list \<Rightarrow> path \<Rightarrow> 'g \<Rightarrow> proc_outcome \<times> 'g"

definition subprocess_run ::
  "'g shell \<Rightarrow> string list \<Rightarrow> bool \<Rightarrow> 'g world \<Rightarrow> (error + int \<times> string) \<times> 'g world" where
  "subprocess_run sh args check w =
     (let (out, g') = sh args (cwd w) (repo w);
          w' = w\<lparr>repo := g', proc_calls := proc_calls w @ [(args, cwd w)]\<rparr>
      in case out of
           SpawnFailed e \<Rightarrow> (Inl e, w')
         | Exited rc so \<Rightarrow>
             if check \<and> rc \<noteq> 0 then (Inl (CalledProcessError rc args), w')
             else (Inr (rc, so), w'))"

text \<open>
  \<^verbatim>\<open>str.strip()\<close>: the white space of Python among the code points below 256.
\<close>

definition is_space :: "char \<Rightarrow> bool" where
  "is_space c =
     (c \<in> set [CHR 0x09, CHR 0x0A, CHR 0x0B, CHR 0x0C, CHR 0x0D, CHR 0x1C, CHR 0x1D,
               CHR 0x1E, CHR 0x1F, CHR 0x20, CHR 0x85, CHR 0xA0])"

definition strip :: "string \<Rightarrow> string" where
  "strip s = rev (dropWhile is_space (rev (dropWhile is_space s)))"

section \<open>The class \<^verbatim>\<open>Experiment\<close>\<close>

text \<open>
  The identifier generator is the method \<^verbatim>\<open>_default_id_generator\<close> or the callable
  given to the constructor. The argument \<^verbatim>\<open>logging_module\<close> is the string
  \<^verbatim>\<open>'default'\<close> (its default value), \<^verbatim>\<open>None\<close>, or a logger.
\<close>

datatype id_gen = DefaultGen | CustomGen "unit \<Rightarrow> string"

datatype logging_arg = DefaultStr | PyNone | LoggerObj logger

text \<open>
  The attributes of an instance. \<^verbatim>\<open>_output_dir\<close> is assigned \<^verbatim>\<open>None\<close> by the
  constructor; \<^verbatim>\<open>_logs_dir\<close> and \<^verbatim>\<open>_experiment_directory\<close> are assigned by
  \<^verbatim>\<open>initialize_experiment\<close> only.
\<close>

record Experiment =
  experiments_root_dir :: path
  outputs_name :: string
  group_dir :: path
  experiment_name :: string
  output_dir :: "path option"
  id_generator :: id_gen
  auto_commit_git :: bool
  logger_of :: logger
  logs_dir :: "path attr"
  experiment_directory :: "path attr"

text \<open>The default values of the constructor's optional arguments.\<close>

definition default_auto_commit_git :: bool where
  "default_auto_commit_git = False"

definition default_outputs_name :: string where
  "default_outputs_name = ''checkpoints''"

definition default_logging_module :: logging_arg where
  "default_logging_module = DefaultStr"

definition default_custom_id_generator :: "(unit \<Rightarrow> string) option" where
  "default_custom_id_generator = None"

definition log_format :: string where
  "log_format = ''%(asctime)s - %(name)s - %(levelname)s - %(message)s''"

text \<open>The assignments of the constructor, with the logger it ends up with.\<close>

definition assign_attributes ::
  "path \<Rightarrow> string \<Rightarrow> string \<Rightarrow> bool \<Rightarrow> string \<Rightarrow> (unit \<Rightarrow> string) option \<Rightarrow> logger
     \<Rightarrow> Experiment" where
  "assign_attributes root name grp auto_commit outputs custom lg =
     \<lparr>experiments_root_dir = root,
      outputs_name = outputs,
      group_dir = root @ [grp],
      experiment_name = name,
      output_dir = None,
      id_generator = (case custom of Some g \<Rightarrow> CustomGen g | None \<Rightarrow> DefaultGen),
      auto_commit_git = auto_commit,
      logger_of = lg,
      logs_dir = Unset,
      experiment_directory = Unset\<rparr>"

definition Experiment_init ::
  "path \<Rightarrow> string \<Rightarrow> string \<Rightarrow> bool \<Rightarrow> string \<Rightarrow> logging_arg \<Rightarrow> (unit \<Rightarrow> string) option
     \<Rightarrow> 'g world \<Rightarrow> (error + Experiment) \<times> 'g world" where
  "Experiment_init root name grp auto_commit outputs logging_module custom w =
     (case logging_module of
        DefaultStr \<Rightarrow>
          (let w1 = w\<lparr>root_level := DEBUG\<rparr>
           in case logging_FileHandler [] w1 of
                (Inl e, w2) \<Rightarrow> (Inl e, w2)
              | (Inr file_handler, w2) \<Rightarrow>
                  (Inr (assign_attributes root name grp auto_commit outputs custom RootLogger),
                   w2\<lparr>root_handlers := root_handlers w2 @
                        [file_handler\<lparr>h_level := INFO, h_format := Some log_format\<rparr>]\<rparr>))
      | LoggerObj lg \<Rightarrow>
          (Inr (assign_attributes root name grp auto_commit outputs custom lg), w)
      | PyNone \<Rightarrow>
          (Inr (assign_attributes root name grp auto_commit outputs custom RootLogger),
           w\<lparr>root_level := DEBUG\<rparr>))"

subsection \<open>The properties\<close>

definition outputs_path :: "Experiment \<Rightarrow> error + path option" where
  "outputs_path self = Inr (output_dir self)"

definition logs_path :: "Experiment \<Rightarrow> error + path" where
  "logs_path self =
     (case logs_dir self of
        Unset \<Rightarrow> Inl (AttributeError ''_logs_dir'')
      | Value p \<Rightarrow> Inr p)"

definition experiment_root :: "Experiment \<Rightarrow> error + path" where
  "experiment_root self = Inr (experiments_root_dir self)"

subsection \<open>The identifier\<close>

definition Path_iterdir :: "filesystem \<Rightarrow> path \<Rightarrow> error + path list" where
  "Path_iterdir fs p =
     (case lookup fs p of
        None \<Rightarrow> Inl FileNotFoundError
      | Some (File _) \<Rightarrow> Inl NotADirectoryError
      | Some Dir \<Rightarrow> Inr (iterdir fs p))"

definition get_experiment_index :: "Experiment \<Rightarrow> 'g world \<Rightarrow> error + nat" where
  "get_experiment_index self w =
     (if path_exists (files w) (group_dir self)
      then (case Path_iterdir (files w) (group_dir self) of
              Inl e \<Rightarrow> Inl e
            | Inr entries \<Rightarrow> Inr (length entries))
      else Inr 0)"

definition default_id_generator :: "Experiment \<Rightarrow> 'g world \<Rightarrow> error + string" where
  "default_id_generator self w =
     (case get_experiment_index self w of
        Inl e \<Rightarrow> Inl e
      | Inr experiment_index \<Rightarrow> Inr (str_nat experiment_index @ ''_'' @ strftime (clock w)))"

definition call_id_generator :: "Experiment \<Rightarrow> 'g world \<Rightarrow> error + string" where
  "call_id_generator self w =
     (case id_generator self of
        DefaultGen \<Rightarrow> default_id_generator self w
      | CustomGen g \<Rightarrow> Inr (g ()))"

subsection \<open>The record log\<close>

definition record_info :: "Experiment \<Rightarrow> string \<Rightarrow> 'g world \<Rightarrow> (error + unit) \<times> 'g world" where
  "record_info self info w =
     (case experiment_directory self of
        Unset \<Rightarrow> (Inl (AttributeError ''_experiment_directory''), w)
      | Value d \<Rightarrow>
          (case open_append (files w) (d @ [''info.txt'']) of
             Inl e \<Rightarrow> (Inl e, w)
           | Inr fs' \<Rightarrow>
               (Inr (), w\<lparr>files := file_write fs' (d @ [''info.txt'']) (info @ [newline])\<rparr>)))"

definition record_commit_hash :: "Experiment \<Rightarrow> string \<Rightarrow> 'g world \<Rightarrow> (error + unit) \<times> 'g world" where
  "record_commit_hash self commit_hash w = record_info self (''commit_hash: '' @ commit_hash) w"

subsection \<open>The snapshot of the code\<close>

definition git_add :: "string list" where
  "git_add = [''git'', ''add'', ''.'']"

definition git_diff :: "string list" where
  "git_diff = [''git'', ''diff'', ''--staged'', ''--quiet'']"

definition git_commit :: "string \<Rightarrow> string list" where
  "git_commit commit_message = [''git'', ''commit'', ''-m'', commit_message]"

definition git_rev_parse :: "string list" where
  "git_rev_parse = [''git'', ''rev-parse'', ''HEAD'']"

definition git_push :: "string list" where
  "git_push = [''git'', ''push'']"

text \<open>
  The body of the \<^verbatim>\<open>try\<close> statement of \<^verbatim>\<open>_do_auto_commit\<close>. The push is a comment
  in the source, so the flag \<^verbatim>\<open>push\<close> is never read.
\<close>

definition snapshot_steps ::
  "'g shell \<Rightarrow> Experiment \<Rightarrow> string \<Rightarrow> bool \<Rightarrow> 'g world \<Rightarrow> (error + unit) \<times> 'g world" where
  "snapshot_steps sh self commit_message push w =
     (case subprocess_run sh git_add True w of
        (Inl e, w1) \<Rightarrow> (Inl e, w1)
      | (Inr _, w1) \<Rightarrow>
     (case subprocess_run sh git_diff False w1 of
        (Inl e, w2) \<Rightarrow> (Inl e, w2)
      | (Inr _, w2) \<Rightarrow>
     (case subprocess_run sh (git_commit commit_message) True w2 of
        (Inl e, w3) \<Rightarrow> (Inl e, w3)
      | (Inr _, w3) \<Rightarrow>
     (case subprocess_run sh git_rev_parse True w3 of
        (Inl e, w4) \<Rightarrow> (Inl e, w4)
      | (Inr (_, out), w4) \<Rightarrow> record_commit_hash self (strip out) w4))))"

text \<open>
  \<^verbatim>\<open>_do_auto_commit\<close>: the handler catches \<^verbatim>\<open>subprocess.CalledProcessError\<close> and no
  other exception.
\<close>

definition do_auto_commit ::
  "'g shell \<Rightarrow> Experiment \<Rightarrow> string \<Rightarrow> bool \<Rightarrow> 'g world \<Rightarrow> (error + unit) \<times> 'g world" where
  "do_auto_commit sh self commit_message push w =
     (case snapshot_steps sh self commit_message push w of
        (Inl (CalledProcessError rc args), w') \<Rightarrow>
          (Inr (), log_exception (logger_of self) ''Git command failed: ''
                     (CalledProcessError rc args) w')
      | r \<Rightarrow> r)"

subsection \<open>\<^verbatim>\<open>initialize_experiment\<close>\<close>

text \<open>
  The result holds the instance as well: the attributes assigned before an exception
  stay assigned.
\<close>

definition initialize_experiment ::
  "'g shell \<Rightarrow> Experiment \<Rightarrow> 'g world \<Rightarrow> (error + unit) \<times> Experiment \<times> 'g world" where
  "initialize_experiment sh self w =
     (let w1 = log_info (logger_of self)
                 (''Initializing experiment: '' @ path_name (group_dir self) @ ''/'' @
                    experiment_name self) w
      in case call_id_generator self w1 of
           Inl e \<Rightarrow> (Inl e, self, w1)
         | Inr ident \<Rightarrow>
             (let self1 = self\<lparr>experiment_directory := Value (group_dir self @ [ident])\<rparr>;
                  self2 = self1\<lparr>logs_dir := Value (group_dir self @ [ident] @ [LOGS_NAME])\<rparr>
              in case Path_mkdir True True (files w1) (group_dir self @ [ident] @ [LOGS_NAME]) of
                   (Inl e, fs') \<Rightarrow> (Inl e, self2, w1\<lparr>files := fs'\<rparr>)
                 | (Inr _, fs') \<Rightarrow>
                     (let w2 = w1\<lparr>files := fs'\<rparr>;
                          self3 = self2\<lparr>output_dir :=
                                    Some (group_dir self @ [ident] @ [outputs_name self])\<rparr>
                      in if auto_commit_git self3
                         then (let w3 = log_info (logger_of self3)
                                          ''auto-creating experiment commit...'' w2
                               in case do_auto_commit sh self3
                                         (''Experiment auto-commit: '' @
                                            path_name (group_dir self3) @ ''/'' @
                                            experiment_name self3) False w3 of
                                    (r, w4) \<Rightarrow> (r, self3, w4))
                         else (Inr (), self3, w2))))"

section \<open>Auxiliary notions for the statements\<close>

text \<open>
  What a directory creation for the path \<open>p\<close> may change: a path that was absent,
  is a prefix of \<open>p\<close> and is a directory afterwards. Everything else stays.
\<close>

definition changed_only_by_mkdir :: "filesystem \<Rightarrow> filesystem \<Rightarrow> path \<Rightarrow> bool" where
  "changed_only_by_mkdir fs fs' p =
     (\<forall>q. lookup fs' q = lookup fs q \<or>
          (lookup fs q = None \<and> lookup fs' q = Some Dir \<and> q \<noteq> [] \<and> take (length q) p = q))"



text \<open>The value of a decimal numeral, the inverse of \<open>str_nat\<close> and of \<open>zfill\<close>.\<close>

definition digit_val :: "char \<Rightarrow> nat" where
  "digit_val c = of_char c - 48"

definition dec_val :: "string \<Rightarrow> nat" where
  "dec_val s = foldl (\<lambda>a c. 10 * a + digit_val c) 0 s"

text \<open>The text of a regular file; empty for a path that holds none.\<close>

definition file_text :: "filesystem \<Rightarrow> path \<Rightarrow> string" where
  "file_text fs p = (case lookup fs p of Some (File c) \<Rightarrow> c | _ \<Rightarrow> [])"

text \<open>The world after one more command has run, and the commands of a whole snapshot.\<close>

definition after_run :: "'g world \<Rightarrow> string list \<Rightarrow> 'g \<Rightarrow> 'g world" where
  "after_run w args g = w\<lparr>repo := g, proc_calls := proc_calls w @ [(args, cwd w)]\<rparr>"

definition snapshot_commands :: "string \<Rightarrow> path \<Rightarrow> (string list \<times> path) list" where
  "snapshot_commands commit_message d =
     [(git_add, d), (git_diff, d), (git_commit commit_message, d), (git_rev_parse, d)]"

text \<open>Two clock readings in the same second: all fields but the microseconds agree.\<close>

definition same_second :: "datetime \<Rightarrow> datetime \<Rightarrow> bool" where
  "same_second s t =
     (year s = year t \<and> month s = month t \<and> day s = day t \<and>
      hour s = hour t \<and> minute s = minute t \<and> second s = second t)"

section \<open>Concrete worlds for the examples\<close>

definition example_clock :: datetime where
  "example_clock =
     \<lparr>year = 2024, month = 1, day = 2, hour = 3, minute = 4, second = 5, microsecond = 6\<rparr>"

definition example_world :: "unit world" where
  "example_world =
     \<lparr>files = [], cwd = [''repo''], clock = example_clock, repo = (), proc_calls = [],
      root_level = WARNING, root_handlers = [], log_calls = []\<rparr>"

text \<open>A repository with a pending change: every command exits with status 0.\<close>

definition example_shell :: "unit shell" where
  "example_shell args d g =
     (if args = git_rev_parse then (Exited 0 (''0a1b2c'' @ [newline]), g) else (Exited 0 [], g))"

text \<open>A repository with nothing to commit: \<^verbatim>\<open>git commit\<close> exits with status 1.\<close>

definition nothing_to_commit_shell :: "unit shell" where
  "nothing_to_commit_shell args d g =
     (if take 2 args = [''git'', ''commit''] then (Exited 1 [], g)
      else if args = git_rev_parse then (Exited 0 (''0a1b2c'' @ [newline]), g)
      else (Exited 0 [], g))"

text \<open>\<^verbatim>\<open>Experiment('exp', 'run', 'grp', logging_module=None)\<close> and its first initialization.\<close>

definition example_self :: Experiment where
  "example_self =
     assign_attributes [''exp''] ''run'' ''grp'' default_auto_commit_git default_outputs_name
       default_custom_id_generator RootLogger"

definition example_initialized :: "(error + unit) \<times> Experiment \<times> unit world" where
  "example_initialized =
     initialize_experiment example_shell example_self (example_world\<lparr>root_level := DEBUG\<rparr>)"






text \<open>
  A world whose group directory already holds the directory that the first
  initialization will name, and a clock reading one second after the first.
\<close>

definition collision_world :: "unit world" where
  "collision_world =
     example_world\<lparr>files :=
       [([''exp''], Dir), ([''exp'', ''grp''], Dir),
        ([''exp'', ''grp'', ''1_2024-01-02_03-04-05''], Dir)]\<rparr>"

definition collision_initialized :: "(error + unit) \<times> Experiment \<times> unit world" where
  "collision_initialized = initialize_experiment example_shell example_self collision_world"

definition example_clock_later :: datetime where
  "example_clock_later = example_clock\<lparr>second := 6, microsecond := 6\<rparr>"

section \<open>Properties of the filesystem operations\<close>

declare Path_mkdir.simps [simp del]


lemma lookup_update:
  "p \<noteq> [] \<Longrightarrow> lookup (AList.update p n fs) q = (if q = p then Some n else lookup fs q)"
  by (simp add: lookup_def update_conv')

lemma lookup_root [simp]: "lookup fs [] = Some Dir"
  by (simp add: lookup_def)

lemma os_mkdir_Inr:
  "os_mkdir fs p = Inr fs' \<longleftrightarrow>
     p \<noteq> [] \<and> lookup fs (butlast p) = Some Dir \<and> lookup fs p = None \<and> fs' = AList.update p Dir fs"
  by (auto simp: os_mkdir_def split: option.splits node.splits)

lemma Path_mkdir_leaf:
  "Path_mkdir False ok fs p =
     (case os_mkdir fs p of Inr fs' \<Rightarrow> (Inr (), fs')
      | Inl e \<Rightarrow> if e = FileNotFoundError \<or> \<not> ok \<or> \<not> is_dir fs p then (Inl e, fs) else (Inr (), fs))"
  by (subst Path_mkdir.simps) (auto split: sum.splits)

lemma com_refl: "changed_only_by_mkdir fs fs p"
  by (simp add: changed_only_by_mkdir_def)

lemma com_update:
  "p \<noteq> [] \<Longrightarrow> lookup fs p = None \<Longrightarrow> changed_only_by_mkdir fs (AList.update p Dir fs) p"
  by (simp add: changed_only_by_mkdir_def lookup_update)

lemma com_trans:
  "changed_only_by_mkdir fs fs1 (butlast p) \<Longrightarrow> changed_only_by_mkdir fs1 fs2 p \<Longrightarrow>
   changed_only_by_mkdir fs fs2 p"
  unfolding changed_only_by_mkdir_def
proof (intro allI)
  fix q
  assume a: "\<forall>q. lookup fs1 q = lookup fs q \<or>
          (lookup fs q = None \<and> lookup fs1 q = Some Dir \<and> q \<noteq> [] \<and> take (length q) (butlast p) = q)"
   and b: "\<forall>q. lookup fs2 q = lookup fs1 q \<or>
          (lookup fs1 q = None \<and> lookup fs2 q = Some Dir \<and> q \<noteq> [] \<and> take (length q) p = q)"
  have pre: "take (length q) (butlast p) = q \<Longrightarrow> take (length q) p = q"
    by (metis butlast_conv_take take_take min.cobounded1 length_take min_def take_all_iff nat_le_linear)
  from a[rule_format, of q] b[rule_format, of q] pre
  show "lookup fs2 q = lookup fs q \<or>
          (lookup fs q = None \<and> lookup fs2 q = Some Dir \<and> q \<noteq> [] \<and> take (length q) p = q)"
    by auto
qed

lemma Path_mkdir_leaf_changes:
  "Path_mkdir False ok fs p = (r, fs') \<Longrightarrow> changed_only_by_mkdir fs fs' p"
  by (auto simp: Path_mkdir_leaf os_mkdir_Inr com_refl com_update split: sum.splits if_splits)

lemma Path_mkdir_changes:
  "Path_mkdir parents ok fs p = (r, fs') \<Longrightarrow> changed_only_by_mkdir fs fs' p"
proof (induction parents ok fs p arbitrary: r fs' rule: Path_mkdir.induct)
  case (1 parents exist_ok fs p)
  show ?case
  proof (cases "os_mkdir fs p")
    case (Inr fs1)
    with "1.prems" show ?thesis
      by (subst (asm) Path_mkdir.simps) (auto simp: os_mkdir_Inr com_update)
  next
    case (Inl e)
    show ?thesis
    proof (cases "e = FileNotFoundError \<and> parents \<and> p \<noteq> []")
      case False
      with Inl "1.prems" show ?thesis
        by (subst (asm) Path_mkdir.simps) (auto simp: com_refl split: if_splits)
    next
      case True
      obtain r1 fs1 where up: "Path_mkdir True True fs (butlast p) = (r1, fs1)"
        by (cases "Path_mkdir True True fs (butlast p)")
      have c1: "changed_only_by_mkdir fs fs1 (butlast p)"
        using "1.IH"(1)[OF Inl _ _ up] True by simp
      show ?thesis
      proof (cases r1)
        case (Inl e1)
        with True \<open>os_mkdir fs p = Inl e\<close> up "1.prems" have "fs' = fs1"
          by (subst (asm) Path_mkdir.simps) simp
        with c1 show ?thesis
          using com_trans[OF c1 com_refl] by simp
      next
        case (Inr u)
        with True \<open>os_mkdir fs p = Inl e\<close> up "1.prems"
        have "Path_mkdir False exist_ok fs1 p = (r, fs')"
          by (subst (asm) Path_mkdir.simps) simp
        then have "changed_only_by_mkdir fs1 fs' p"
          by (rule Path_mkdir_leaf_changes)
        with c1 show ?thesis by (rule com_trans)
      qed
    qed
  qed
qed


lemma Path_mkdir_Inr:
  "os_mkdir fs p = Inr fs1 \<Longrightarrow> Path_mkdir parents ok fs p = (Inr (), fs1)"
  by (subst Path_mkdir.simps) simp

lemma Path_mkdir_other:
  "os_mkdir fs p = Inl e \<Longrightarrow> \<not> (e = FileNotFoundError \<and> parents \<and> p \<noteq> []) \<Longrightarrow>
   Path_mkdir parents ok fs p =
     (if e = FileNotFoundError \<or> \<not> ok \<or> \<not> is_dir fs p then (Inl e, fs) else (Inr (), fs))"
  by (subst Path_mkdir.simps) auto

lemma Path_mkdir_rec:
  "os_mkdir fs p = Inl FileNotFoundError \<Longrightarrow> p \<noteq> [] \<Longrightarrow>
   Path_mkdir True ok fs p =
     (case Path_mkdir True True fs (butlast p) of
        (Inl e', fs') \<Rightarrow> (Inl e', fs')
      | (Inr _, fs') \<Rightarrow> Path_mkdir False ok fs' p)"
  by (subst Path_mkdir.simps) simp

lemma not_file_cases:
  "(\<And>c. v \<noteq> Some (File c)) \<Longrightarrow> v = None \<or> v = Some Dir"
  by (metis node.exhaust not_None_eq)

lemma Path_mkdir_leaf_dir:
  "Path_mkdir False ok fs p = (Inr u, fs') \<Longrightarrow> lookup fs' p = Some Dir"
  by (auto simp: Path_mkdir_leaf os_mkdir_Inr lookup_update is_dir_def split: sum.splits if_splits)

lemma Path_mkdir_dir:
  "Path_mkdir parents ok fs p = (Inr u, fs') \<Longrightarrow> lookup fs' p = Some Dir"
proof (cases "parents")
  case False
  then show "Path_mkdir parents ok fs p = (Inr u, fs') \<Longrightarrow> lookup fs' p = Some Dir"
    using Path_mkdir_leaf_dir by simp
next
  case True
  assume a: "Path_mkdir parents ok fs p = (Inr u, fs')"
  show "lookup fs' p = Some Dir"
  proof (cases "os_mkdir fs p")
    case (Inr fs1)
    with a show ?thesis
      by (subst (asm) Path_mkdir.simps) (auto simp: os_mkdir_Inr lookup_update)
  next
    case (Inl e)
    show ?thesis
    proof (cases "e = FileNotFoundError")
      case False
      with Inl a show ?thesis
        by (subst (asm) Path_mkdir.simps) (auto simp: is_dir_def split: if_splits)
    next
      case e: True
      with Inl a True show ?thesis
        by (subst (asm) Path_mkdir.simps)
           (auto split: if_splits prod.splits sum.splits dest: Path_mkdir_leaf_dir)
    qed
  qed
qed

lemma wf_fs_iff:
  "wf_fs fs \<longleftrightarrow> (\<forall>p. lookup fs p \<noteq> None \<longrightarrow> lookup fs (butlast p) = Some Dir)"
proof
  assume w: "wf_fs fs"
  show "\<forall>p. lookup fs p \<noteq> None \<longrightarrow> lookup fs (butlast p) = Some Dir"
  proof (intro allI impI)
    fix p assume e: "lookup fs p \<noteq> None"
    show "lookup fs (butlast p) = Some Dir"
    proof (cases "p = []")
      case True then show ?thesis by simp
    next
      case False
      with e obtain n where "map_of fs p = Some n" by (auto simp: lookup_def)
      then have "(p, n) \<in> set fs" by (rule map_of_SomeD)
      with w show ?thesis by (auto simp: wf_fs_def list_all_iff)
    qed
  qed
next
  assume a: "\<forall>p. lookup fs p \<noteq> None \<longrightarrow> lookup fs (butlast p) = Some Dir"
  show "wf_fs fs"
    unfolding wf_fs_def list_all_iff
  proof (intro ballI, clarify)
    fix p n assume "(p, n) \<in> set fs"
    then have "map_of fs p \<noteq> None" by (metis weak_map_of_SomeI option.distinct(1))
    then have "lookup fs p \<noteq> None" by (simp add: lookup_def)
    with a show "lookup fs (butlast p) = Some Dir" by blast
  qed
qed

lemma wf_fs_mkdir_update:
  assumes "wf_fs fs" "p \<noteq> []" "lookup fs (butlast p) = Some Dir" "lookup fs p = None"
  shows "wf_fs (AList.update p Dir fs)"
  unfolding wf_fs_iff
proof (intro allI impI)
  fix q assume e: "lookup (AList.update p Dir fs) q \<noteq> None"
  have np: "butlast p \<noteq> p" using assms(2) by (metis length_butlast diff_less length_greater_0_conv less_irrefl zero_less_one)
  show "lookup (AList.update p Dir fs) (butlast q) = Some Dir"
  proof (cases "q = p")
    case True
    with assms np show ?thesis by (simp add: lookup_update)
  next
    case False
    with e assms(2) have "lookup fs q \<noteq> None" by (simp add: lookup_update)
    with assms(1) have d: "lookup fs (butlast q) = Some Dir" by (simp add: wf_fs_iff)
    with assms(4) have "butlast q \<noteq> p" by auto
    with d assms(2) show ?thesis by (simp add: lookup_update)
  qed
qed

lemma wf_fs_Path_mkdir_leaf:
  "wf_fs fs \<Longrightarrow> Path_mkdir False ok fs p = (r, fs') \<Longrightarrow> wf_fs fs'"
  by (auto simp: Path_mkdir_leaf os_mkdir_Inr wf_fs_mkdir_update split: sum.splits if_splits)

lemma wf_fs_Path_mkdir:
  "wf_fs fs \<Longrightarrow> Path_mkdir parents ok fs p = (r, fs') \<Longrightarrow> wf_fs fs'"
proof (induction parents ok fs p arbitrary: r fs' rule: Path_mkdir.induct)
  case (1 parents exist_ok fs p)
  show ?case
  proof (cases "os_mkdir fs p")
    case (Inr fs1)
    then have "fs' = fs1" using "1.prems"(2) by (simp add: Path_mkdir_Inr)
    with Inr "1.prems"(1) show ?thesis
      by (auto simp: os_mkdir_Inr wf_fs_mkdir_update)
  next
    case (Inl e)
    show ?thesis
    proof (cases "e = FileNotFoundError \<and> parents \<and> p \<noteq> []")
      case False
      with Inl "1.prems" show ?thesis
        by (auto simp: Path_mkdir_other split: if_splits)
    next
      case True
      obtain r1 fs1 where up: "Path_mkdir True True fs (butlast p) = (r1, fs1)"
        by (cases "Path_mkdir True True fs (butlast p)")
      have c1: "wf_fs fs1"
        using "1.IH"(1)[OF Inl _ _ "1.prems"(1) up] True by simp
      have eq: "Path_mkdir parents exist_ok fs p =
                  (case r1 of Inl e' \<Rightarrow> (Inl e', fs1) | Inr _ \<Rightarrow> Path_mkdir False exist_ok fs1 p)"
        using True Inl up by (simp add: Path_mkdir_rec split: sum.splits)
      show ?thesis
      proof (cases r1)
        case (Inl e1)
        with eq "1.prems"(2) have "fs' = fs1" by simp
        with c1 show ?thesis by simp
      next
        case (Inr u)
        with eq "1.prems"(2) have "Path_mkdir False exist_ok fs1 p = (r, fs')" by simp
        with c1 show ?thesis by (rule wf_fs_Path_mkdir_leaf)
      qed
    qed
  qed
qed

lemma wf_fs_ancestors:
  "wf_fs fs \<Longrightarrow> lookup fs (p @ q) \<noteq> None \<Longrightarrow> q \<noteq> [] \<Longrightarrow> lookup fs p = Some Dir"
proof (induction q rule: rev_induct)
  case Nil
  then show ?case by simp
next
  case (snoc x xs)
  have "lookup fs (butlast (p @ xs @ [x])) = Some Dir"
    using snoc.prems(1,2) unfolding wf_fs_iff by blast
  then have d: "lookup fs (p @ xs) = Some Dir" by (simp add: butlast_append)
  show ?case
  proof (cases "xs = []")
    case True with d show ?thesis by simp
  next
    case False
    with snoc.IH[OF snoc.prems(1)] d show ?thesis by simp
  qed
qed

text \<open>totality\<close>
lemma Path_mkdir_succeeds:
  "\<forall>k \<le> length p. \<forall>c. lookup fs (take k p) \<noteq> Some (File c) \<Longrightarrow>
     \<exists>fs'. Path_mkdir True True fs p = (Inr (), fs')"
proof (induction p arbitrary: fs rule: rev_induct)
  case Nil
  have "os_mkdir fs [] = Inl FileExistsError" by (simp add: os_mkdir_def)
  then show ?case by (simp add: Path_mkdir_other is_dir_def)
next
  case (snoc x xs)
  have nf: "\<And>c. lookup fs (xs @ [x]) \<noteq> Some (File c)"
    using snoc.prems[rule_format, of "length (xs @ [x])"] by simp
  have pre: "\<forall>k \<le> length xs. \<forall>c. lookup fs (take k xs) \<noteq> Some (File c)"
  proof (intro allI impI)
    fix k c assume "k \<le> length xs"
    then show "lookup fs (take k xs) \<noteq> Some (File c)"
      using snoc.prems[rule_format, of k c] by simp
  qed
  have nfp: "\<And>c. lookup fs xs \<noteq> Some (File c)"
    using pre[rule_format, of "length xs"] by simp
  show ?case
  proof (cases "lookup fs xs")
    case None
    from snoc.IH[OF pre] obtain fs1 where up: "Path_mkdir True True fs xs = (Inr (), fs1)" by blast
    have d1: "lookup fs1 xs = Some Dir" using up by (rule Path_mkdir_dir)
    have "changed_only_by_mkdir fs fs1 xs" using up by (rule Path_mkdir_changes)
    then have "lookup fs1 (xs @ [x]) = lookup fs (xs @ [x]) \<or> lookup fs1 (xs @ [x]) = Some Dir"
      unfolding changed_only_by_mkdir_def by blast
    with nf have "\<And>c. lookup fs1 (xs @ [x]) \<noteq> Some (File c)" by auto
    then have "lookup fs1 (xs @ [x]) = None \<or> lookup fs1 (xs @ [x]) = Some Dir"
      by (rule not_file_cases)
    then have leaf: "\<exists>fs'. Path_mkdir False True fs1 (xs @ [x]) = (Inr (), fs')"
      using d1 by (auto simp: Path_mkdir_leaf os_mkdir_def is_dir_def)
    have "os_mkdir fs (xs @ [x]) = Inl FileNotFoundError"
      using None by (simp add: os_mkdir_def)
    with up leaf show ?thesis
      by (simp add: Path_mkdir_rec)
  next
    case (Some n)
    with nfp have d: "lookup fs xs = Some Dir" by (cases n) auto
    have "lookup fs (xs @ [x]) = None \<or> lookup fs (xs @ [x]) = Some Dir"
      using nf by (rule not_file_cases)
    then show ?thesis
    proof
      assume "lookup fs (xs @ [x]) = None"
      with d have "os_mkdir fs (xs @ [x]) = Inr (AList.update (xs @ [x]) Dir fs)"
        by (simp add: os_mkdir_def)
      then show ?thesis by (simp add: Path_mkdir_Inr)
    next
      assume e: "lookup fs (xs @ [x]) = Some Dir"
      with d have "os_mkdir fs (xs @ [x]) = Inl FileExistsError"
        by (simp add: os_mkdir_def)
      then show ?thesis using e by (simp add: Path_mkdir_other is_dir_def)
    qed
  qed
qed

lemma Path_mkdir_existing:
  "wf_fs fs \<Longrightarrow> lookup fs p = Some Dir \<Longrightarrow> Path_mkdir parents True fs p = (Inr (), fs)"
proof -
  assume w: "wf_fs fs" and d: "lookup fs p = Some Dir"
  then have "lookup fs (butlast p) = Some Dir" unfolding wf_fs_iff by auto
  with d show ?thesis
    by (subst Path_mkdir.simps) (auto simp: os_mkdir_def is_dir_def)
qed

section \<open>Properties of the record log\<close>

lemma lookup_open_append:
  "open_append fs p = Inr fs1 \<Longrightarrow>
     lookup fs1 q = (if q = p \<and> lookup fs p = None then Some (File []) else lookup fs q)"
  by (auto simp: open_append_def lookup_update split: if_splits option.splits node.splits)

lemma lookup_file_write:
  "lookup (file_write fs p data) q =
     (if q = p then (case lookup fs p of Some (File c) \<Rightarrow> Some (File (c @ data)) | v \<Rightarrow> v)
      else lookup fs q)"
proof (cases "p = []")
  case True
  then show ?thesis by (simp add: file_write_def)
next
  case False
  then show ?thesis
    by (auto simp: file_write_def lookup_update split: option.splits node.splits)
qed

lemma open_append_Inr:
  "p \<noteq> [] \<Longrightarrow> lookup fs (butlast p) = Some Dir \<Longrightarrow> lookup fs p \<noteq> Some Dir \<Longrightarrow>
     \<exists>fs1. open_append fs p = Inr fs1"
  by (auto simp: open_append_def split: option.splits node.splits)

lemma open_append_error:
  "open_append fs p = Inl e \<Longrightarrow> is_filesystem_error e"
  by (auto simp: open_append_def split: if_splits option.splits node.splits)

lemma record_info_cases:
  "record_info self info w = (r, w') \<Longrightarrow>
     (\<exists>e. r = Inl e \<and> w' = w) \<or>
     (\<exists>d fs1. r = Inr () \<and> experiment_directory self = Value d \<and>
        open_append (files w) (d @ [''info.txt'']) = Inr fs1 \<and>
        w' = w\<lparr>files := file_write fs1 (d @ [''info.txt'']) (info @ [newline])\<rparr>)"
  by (auto simp: record_info_def split: attr.splits sum.splits)

lemma record_info_lookup:
  assumes "record_info self info w = (Inr u, w')" "experiment_directory self = Value d"
  shows "lookup (files w') q =
           (if q = d @ [''info.txt'']
            then Some (File (file_text (files w) (d @ [''info.txt'']) @ info @ [newline]))
            else lookup (files w) q)"
proof -
  from record_info_cases[OF assms(1)] assms(2) obtain fs1 where
    o: "open_append (files w) (d @ [''info.txt'']) = Inr fs1" and
    w': "w' = w\<lparr>files := file_write fs1 (d @ [''info.txt'']) (info @ [newline])\<rparr>"
    by auto
  have nd: "lookup (files w) (d @ [''info.txt'']) \<noteq> Some Dir"
    using o by (auto simp: open_append_def split: if_splits option.splits node.splits)
  show ?thesis
  proof (cases "lookup (files w) (d @ [''info.txt''])")
    case None
    then show ?thesis
      by (simp add: w' lookup_file_write lookup_open_append[OF o] file_text_def)
  next
    case (Some n)
    with nd obtain c where "n = File c" by (cases n) auto
    with Some show ?thesis
      by (simp add: w' lookup_file_write lookup_open_append[OF o] file_text_def)
  qed
qed

lemma record_info_succeeds:
  assumes "experiment_directory self = Value d" "lookup (files w) d = Some Dir"
    "lookup (files w) (d @ [''info.txt'']) \<noteq> Some Dir"
  shows "\<exists>w'. record_info self info w = (Inr (), w')"
proof -
  from open_append_Inr[of "d @ [''info.txt'']" "files w"] assms
  obtain fs1 where "open_append (files w) (d @ [''info.txt'']) = Inr fs1" by auto
  with assms(1) show ?thesis by (simp add: record_info_def)
qed



section \<open>Properties of the snapshot and of the initialization\<close>

lemma log_info_fields [simp]:
  "files (log_info lg msg w) = files w" "cwd (log_info lg msg w) = cwd w"
  "clock (log_info lg msg w) = clock w" "repo (log_info lg msg w) = repo w"
  "proc_calls (log_info lg msg w) = proc_calls w"
  by (simp_all add: log_info_def)

lemma log_exception_fields [simp]:
  "files (log_exception lg msg e w) = files w" "cwd (log_exception lg msg e w) = cwd w"
  "clock (log_exception lg msg e w) = clock w" "repo (log_exception lg msg e w) = repo w"
  "proc_calls (log_exception lg msg e w) = proc_calls w"
  by (simp_all add: log_exception_def)

lemma subprocess_run_fields:
  "subprocess_run sh args check w = (r, w') \<Longrightarrow>
     files w' = files w \<and> cwd w' = cwd w \<and> clock w' = clock w \<and> log_calls w' = log_calls w"
  by (auto simp: subprocess_run_def Let_def split: prod.splits proc_outcome.splits if_splits)

lemma call_id_generator_log_info [simp]:
  "call_id_generator self (log_info lg msg w) = call_id_generator self w"
  by (simp add: call_id_generator_def default_id_generator_def get_experiment_index_def
      split: id_gen.splits sum.splits)

lemma snapshot_steps_files:
  assumes "snapshot_steps sh self msg push w = (r, w')"
  shows "files w' = files w \<or>
         (\<exists>h w4. files w4 = files w \<and> record_info self (''commit_hash: '' @ h) w4 = (r, w'))"
proof -
  obtain r1 w1 where s1: "subprocess_run sh git_add True w = (r1, w1)" by force
  obtain r2 w2 where s2: "subprocess_run sh git_diff False w1 = (r2, w2)" by force
  obtain r3 w3 where s3: "subprocess_run sh (git_commit msg) True w2 = (r3, w3)" by force
  obtain r4 w4 where s4: "subprocess_run sh git_rev_parse True w3 = (r4, w4)" by force
  have f: "files w1 = files w" "files w2 = files w" "files w3 = files w" "files w4 = files w"
    using subprocess_run_fields[OF s1] subprocess_run_fields[OF s2]
      subprocess_run_fields[OF s3] subprocess_run_fields[OF s4] by simp_all
  from assms s1 s2 s3 s4 f show ?thesis
    by (auto simp: snapshot_steps_def record_commit_hash_def split: sum.splits)
qed

lemma do_auto_commit_files:
  assumes "do_auto_commit sh self msg push w = (r, w')"
  shows "files w' = files w \<or>
         (\<exists>h w4 r'. files w4 = files w \<and> record_info self (''commit_hash: '' @ h) w4 = (Inr (), w'))"
proof -
  obtain r0 w0 where s: "snapshot_steps sh self msg push w = (r0, w0)" by force
  have w': "files w' = files w0"
    using assms s by (auto simp: do_auto_commit_def split: sum.splits error.splits)
  from snapshot_steps_files[OF s] show ?thesis
  proof
    assume "files w0 = files w" with w' show ?thesis by simp
  next
    assume "\<exists>h w4. files w4 = files w \<and> record_info self (''commit_hash: '' @ h) w4 = (r0, w0)"
    then obtain h w4 where a: "files w4 = files w"
      and b: "record_info self (''commit_hash: '' @ h) w4 = (r0, w0)" by blast
    from record_info_cases[OF b] show ?thesis
    proof
      assume "\<exists>e. r0 = Inl e \<and> w0 = w4"
      with a w' show ?thesis by auto
    next
      assume "\<exists>d fs1. r0 = Inr () \<and> experiment_directory self = Value d \<and>
        open_append (files w4) (d @ [''info.txt'']) = Inr fs1 \<and>
        w0 = w4\<lparr>files := file_write fs1 (d @ [''info.txt'']) ((''commit_hash: '' @ h) @ [newline])\<rparr>"
      then have r0: "r0 = Inr ()" by blast
      with s assms have "w' = w0" by (simp add: do_auto_commit_def)
      with a b r0 show ?thesis by blast
    qed
  qed
qed

lemma initialize_experiment_Inr:
  assumes "initialize_experiment sh self w = (Inr u, self', w')"
  shows "\<exists>ident fs1.
     call_id_generator self w = Inr ident \<and>
     Path_mkdir True True (files w) (group_dir self @ [ident, LOGS_NAME]) = (Inr (), fs1) \<and>
     self' = self\<lparr>experiment_directory := Value (group_dir self @ [ident]),
                  logs_dir := Value (group_dir self @ [ident, LOGS_NAME]),
                  output_dir := Some (group_dir self @ [ident, outputs_name self])\<rparr> \<and>
     (files w' = fs1 \<or>
      (auto_commit_git self \<and>
       (\<exists>h w4. files w4 = fs1 \<and> record_info self' (''commit_hash: '' @ h) w4 = (Inr (), w'))))"
proof -
  from assms obtain ident where g: "call_id_generator self w = Inr ident"
    by (auto simp: initialize_experiment_def Let_def split: sum.splits)
  obtain r1 fs1 where m: "Path_mkdir True True (files w) (group_dir self @ [ident, LOGS_NAME]) = (r1, fs1)"
    by force
  from assms g m have r1: "r1 = Inr ()"
    by (auto simp: initialize_experiment_def Let_def split: sum.splits)
  define self3 where "self3 = self\<lparr>experiment_directory := Value (group_dir self @ [ident]),
                  logs_dir := Value (group_dir self @ [ident, LOGS_NAME]),
                  output_dir := Some (group_dir self @ [ident, outputs_name self])\<rparr>"
  from assms g m r1 have s': "self' = self3"
    by (auto simp: initialize_experiment_def Let_def self3_def split: sum.splits if_splits prod.splits)
  show ?thesis
  proof (cases "auto_commit_git self")
    case False
    with assms g m r1 have "files w' = fs1"
      by (auto simp: initialize_experiment_def Let_def split: sum.splits)
    with g m r1 s' show ?thesis unfolding self3_def by blast
  next
    case True
    define w3 where "w3 = log_info (logger_of self) ''auto-creating experiment commit...''
        (log_info (logger_of self) (''Initializing experiment: '' @ path_name (group_dir self) @
           ''/'' @ experiment_name self) w\<lparr>files := fs1\<rparr>)"
    have f3: "files w3 = fs1" by (simp add: w3_def)
    from assms g m r1 True
    have d: "do_auto_commit sh self3 (''Experiment auto-commit: '' @ path_name (group_dir self) @
               ''/'' @ experiment_name self) False w3 = (Inr u, w')"
      by (auto simp: initialize_experiment_def Let_def self3_def w3_def split: prod.splits)
    from do_auto_commit_files[OF d] f3 s' True g m r1 show ?thesis
      unfolding self3_def by auto
  qed
qed

lemma initialize_experiment_dirs:
  assumes "initialize_experiment sh self w = (Inr u, self', w')" "wf_fs (files w)"
  shows "\<exists>ident. call_id_generator self w = Inr ident \<and>
           experiment_directory self' = Value (group_dir self @ [ident]) \<and>
           logs_dir self' = Value (group_dir self @ [ident, LOGS_NAME]) \<and>
           output_dir self' = Some (group_dir self @ [ident, outputs_name self]) \<and>
           lookup (files w') (group_dir self @ [ident]) = Some Dir \<and>
           lookup (files w') (group_dir self @ [ident, LOGS_NAME]) = Some Dir"
proof -
  from initialize_experiment_Inr[OF assms(1)] obtain ident fs1 where
    g: "call_id_generator self w = Inr ident" and
    m: "Path_mkdir True True (files w) (group_dir self @ [ident, LOGS_NAME]) = (Inr (), fs1)" and
    s: "self' = self\<lparr>experiment_directory := Value (group_dir self @ [ident]),
                  logs_dir := Value (group_dir self @ [ident, LOGS_NAME]),
                  output_dir := Some (group_dir self @ [ident, outputs_name self])\<rparr>" and
    f: "files w' = fs1 \<or>
      (auto_commit_git self \<and>
       (\<exists>h w4. files w4 = fs1 \<and> record_info self' (''commit_hash: '' @ h) w4 = (Inr (), w')))"
    by blast
  have l: "lookup fs1 (group_dir self @ [ident, LOGS_NAME]) = Some Dir"
    using m by (rule Path_mkdir_dir)
  have "wf_fs fs1" using assms(2) m by (rule wf_fs_Path_mkdir)
  from wf_fs_ancestors[OF this, of "group_dir self @ [ident]" "[LOGS_NAME]"] l
  have e: "lookup fs1 (group_dir self @ [ident]) = Some Dir" by simp
  have ed: "experiment_directory self' = Value (group_dir self @ [ident])" by (simp add: s)
  have "lookup (files w') (group_dir self @ [ident]) = Some Dir \<and>
        lookup (files w') (group_dir self @ [ident, LOGS_NAME]) = Some Dir"
    using f
  proof
    assume "files w' = fs1" with l e show ?thesis by simp
  next
    assume "auto_commit_git self \<and>
       (\<exists>h w4. files w4 = fs1 \<and> record_info self' (''commit_hash: '' @ h) w4 = (Inr (), w'))"
    then obtain h w4 where w4: "files w4 = fs1"
      and r: "record_info self' (''commit_hash: '' @ h) w4 = (Inr (), w')" by blast
    show ?thesis
      using l e by (simp add: record_info_lookup[OF r ed] w4 LOGS_NAME_def)
  qed
  with g s show ?thesis by simp
qed

section \<open>Evaluation of the examples\<close>

lemmas fs_defs = lookup_def os_mkdir_def is_dir_def path_exists_def iterdir_def Path_iterdir_def
  open_append_def file_write_def

lemmas class_defs = assign_attributes_def default_auto_commit_git_def default_outputs_name_def
  default_custom_id_generator_def default_logging_module_def
  call_id_generator_def default_id_generator_def get_experiment_index_def
  record_info_def record_commit_hash_def snapshot_steps_def do_auto_commit_def
  initialize_experiment_def subprocess_run_def log_info_def log_exception_def
  git_add_def git_diff_def git_commit_def git_rev_parse_def LOGS_NAME_def path_name_def
  strip_def is_space_def newline_def

lemma str_nat_digit: "n < 10 \<Longrightarrow> str_nat n = [digit_char n]"
  by (simp add: str_nat.simps)

lemma example_stamp: "strftime example_clock = ''2024-01-02_03-04-05''"
  by (simp add: example_clock_def strftime_def zfill_def str_nat.simps digit_char_def)

lemma example_initialized_eq:
  "example_initialized =
     (Inr (),
      example_self\<lparr>experiment_directory := Value [''exp'', ''grp'', ''0_2024-01-02_03-04-05''],
                   logs_dir := Value [''exp'', ''grp'', ''0_2024-01-02_03-04-05'', ''logs''],
                   output_dir := Some [''exp'', ''grp'', ''0_2024-01-02_03-04-05'', ''checkpoints'']\<rparr>,
      example_world\<lparr>root_level := DEBUG,
         files := [([''exp''], Dir), ([''exp'', ''grp''], Dir),
                   ([''exp'', ''grp'', ''0_2024-01-02_03-04-05''], Dir),
                   ([''exp'', ''grp'', ''0_2024-01-02_03-04-05'', ''logs''], Dir)],
         log_calls := [\<lparr>le_logger = RootLogger, le_level = INFO,
                         le_message = ''Initializing experiment: grp/run'', le_exc_info = None\<rparr>]\<rparr>)"
  by (simp add: example_initialized_def example_self_def example_world_def example_stamp
        class_defs fs_defs str_nat_digit digit_char_def Path_mkdir.simps)


section \<open>The constructor and the accessors\<close>

lemma Experiment_init_default_logger:
  "Experiment_init root name grp auto_commit outputs DefaultStr custom w
     = (Inl TypeError, w\<lparr>root_level := DEBUG\<rparr>)"
  by (simp add: Experiment_init_def logging_FileHandler_def)

lemma Experiment_init_None:
  "Experiment_init root name grp auto_commit outputs PyNone custom w
     = (Inr (assign_attributes root name grp auto_commit outputs custom RootLogger),
        w\<lparr>root_level := DEBUG\<rparr>)"
  by (simp add: Experiment_init_def)

lemma Experiment_init_supplied:
  "Experiment_init root name grp auto_commit outputs (LoggerObj lg) custom w
     = (Inr (assign_attributes root name grp auto_commit outputs custom lg), w)"
  by (simp add: Experiment_init_def)

lemma Experiment_init_no_io:
  "Experiment_init root name grp auto_commit outputs logging_module custom w = (r, w') \<Longrightarrow>
     files w' = files w \<and> proc_calls w' = proc_calls w \<and> repo w' = repo w"
  by (cases logging_module)
     (auto simp: Experiment_init_default_logger Experiment_init_None Experiment_init_supplied)

lemma Experiment_init_Inr:
  "Experiment_init root name grp auto_commit outputs logging_module custom w = (Inr self, w') \<Longrightarrow>
     \<exists>lg. self = assign_attributes root name grp auto_commit outputs custom lg"
  by (cases logging_module)
     (auto simp: Experiment_init_default_logger Experiment_init_None Experiment_init_supplied)

lemma initialize_experiment_root:
  "experiments_root_dir (fst (snd (initialize_experiment sh self w))) = experiments_root_dir self"
  by (simp add: initialize_experiment_def Let_def split: sum.splits prod.splits)

text \<open>
  C9 (the code departs from the claim). The claim: construction performs no I/O; with the
  logger argument left at its default the instance gets a logger that writes through a
  file handler at level INFO with the format of time, name, level and message; with
  \<^verbatim>\<open>None\<close> it gets the plain root logger, and any other logger is kept as it is. The
  code calls \<^verbatim>\<open>logging.FileHandler()\<close> without the file name that the constructor of
  the handler requires, so with the default argument the construction raises
  \<^verbatim>\<open>TypeError\<close> after setting the level of the root logger, and no instance exists.
\<close>

theorem default_logger_construction_raises:
  "Experiment_init [''exp''] ''run'' ''grp'' default_auto_commit_git default_outputs_name
     default_logging_module default_custom_id_generator example_world
   = (Inl TypeError, example_world\<lparr>root_level := DEBUG\<rparr>)"
  by (simp add: default_logging_module_def Experiment_init_default_logger)

text \<open>
  C10. Before \<^verbatim>\<open>initialize_experiment\<close> has run, \<^verbatim>\<open>outputs_path\<close> returns
  \<^verbatim>\<open>None\<close>, \<^verbatim>\<open>logs_path\<close> raises an attribute error, and \<^verbatim>\<open>experiment_root\<close>
  returns the root given to the constructor. \<^verbatim>\<open>initialize_experiment\<close> leaves the value
  of \<^verbatim>\<open>experiment_root\<close> as it is, on any instance and in any world;
  \<^verbatim>\<open>record_info\<close> assigns no attribute at all (its model returns no instance).
\<close>

theorem accessors_before_initialize:
  assumes "Experiment_init root name grp auto_commit outputs logging_module custom w = (Inr self, w')"
  shows "outputs_path self = Inr None \<and>
         logs_path self = Inl (AttributeError ''_logs_dir'') \<and>
         experiment_root self = Inr root \<and>
         (\<forall>sh self1 w1. experiment_root (fst (snd (initialize_experiment sh self1 w1)))
                          = experiment_root self1)"
proof -
  from Experiment_init_Inr[OF assms] obtain lg where
    "self = assign_attributes root name grp auto_commit outputs custom lg" by blast
  then show ?thesis
    by (simp add: outputs_path_def logs_path_def experiment_root_def assign_attributes_def
        initialize_experiment_root)
qed

theorem accessors_before_initialize_witness:
  "outputs_path example_self = Inr None \<and>
   logs_path example_self = Inl (AttributeError ''_logs_dir'') \<and>
   experiment_root example_self = Inr [''exp''] \<and>
   experiment_root (fst (snd example_initialized)) = Inr [''exp'']"
proof -
  have h: "Experiment_init [''exp''] ''run'' ''grp'' default_auto_commit_git default_outputs_name
             PyNone default_custom_id_generator example_world
           = (Inr example_self, example_world\<lparr>root_level := DEBUG\<rparr>)"
    by (simp add: Experiment_init_None example_self_def)
  from accessors_before_initialize[OF h]
  have a: "outputs_path example_self = Inr None"
    and b: "logs_path example_self = Inl (AttributeError ''_logs_dir'')"
    and c: "experiment_root example_self = Inr [''exp'']"
    and d: "\<And>sh self1 (w1 :: unit world).
              experiment_root (fst (snd (initialize_experiment sh self1 w1))) = experiment_root self1"
    by blast+
  from d[of example_shell example_self "example_world\<lparr>root_level := DEBUG\<rparr>"] c
  have "experiment_root (fst (snd example_initialized)) = Inr [''exp'']"
    by (simp add: example_initialized_def)
  with a b c show ?thesis by simp
qed

section \<open>The record log\<close>






section \<open>Numerals and timestamps\<close>

lemma digit_val_digit_char: "d < 10 \<Longrightarrow> digit_val (digit_char d) = d"
proof -
  assume "d < 10"
  then have "d \<in> {0, 1, 2, 3, 4, 5, 6, 7, 8, 9}" by auto
  then show ?thesis
    by (auto simp: digit_val_def digit_char_def)
qed

lemma dec_val_snoc: "dec_val (s @ [c]) = 10 * dec_val s + digit_val c"
  by (simp add: dec_val_def)

lemma dec_val_str_nat: "dec_val (str_nat n) = n"
proof (induction n rule: str_nat.induct)
  case (1 n)
  show ?case
  proof (cases "n < 10")
    case True
    then show ?thesis
      using dec_val_snoc[of "[]" "digit_char n"]
      by (simp add: str_nat.simps[of n] digit_val_digit_char dec_val_def)
  next
    case False
    with 1 show ?thesis
      by (simp add: str_nat.simps[of n] dec_val_snoc digit_val_digit_char)
  qed
qed

lemma dec_val_zeros: "dec_val (replicate k (CHR ''0'') @ s) = dec_val s"
proof -
  have "foldl (\<lambda>a c. 10 * a + digit_val c) 0 (replicate k (CHR ''0'')) = 0"
    by (induction k) (simp_all add: digit_val_def)
  then show ?thesis by (simp add: dec_val_def)
qed

lemma dec_val_zfill: "dec_val (zfill w (str_nat n)) = n"
  by (simp add: zfill_def dec_val_zeros dec_val_str_nat)

lemma length_str_nat: "n < 10 ^ k \<Longrightarrow> 0 < k \<Longrightarrow> length (str_nat n) \<le> k"
proof (induction n arbitrary: k rule: str_nat.induct)
  case (1 n)
  show ?case
  proof (cases "n < 10")
    case True
    with "1.prems" show ?thesis by (simp add: str_nat.simps[of n])
  next
    case False
    from "1.prems" obtain j where k: "k = Suc j" by (cases k) auto
    have "j \<noteq> 0" using False "1.prems"(1) k by (cases j) auto
    moreover have "n div 10 < 10 ^ j" using "1.prems"(1) k by (simp add: less_mult_imp_div_less mult.commute)
    ultimately have "length (str_nat (n div 10)) \<le> j"
      using "1.IH"[OF False, of j] by simp
    with False k show ?thesis by (simp add: str_nat.simps[of n])
  qed
qed

lemma length_zfill: "n < 10 ^ k \<Longrightarrow> 0 < k \<Longrightarrow> length (zfill k (str_nat n)) = k"
  using length_str_nat[of n k] by (simp add: zfill_def)

lemma length_zfill2: "n < 100 \<Longrightarrow> length (zfill 2 (str_nat n)) = 2"
  using length_zfill[of n 2] by simp

lemma length_zfill4: "n < 10000 \<Longrightarrow> length (zfill 4 (str_nat n)) = 4"
  using length_zfill[of n 4] by simp

lemma length_strftime: "valid_datetime t \<Longrightarrow> length (strftime t) = 19"
  by (simp add: valid_datetime_def strftime_def length_zfill2 length_zfill4)

lemma strftime_inj:
  assumes "valid_datetime s" "valid_datetime t" "strftime s = strftime t"
  shows "year s = year t \<and> month s = month t \<and> day s = day t \<and>
         hour s = hour t \<and> minute s = minute t \<and> second s = second t"
proof -
  have l: "length (zfill 4 (str_nat (year s))) = length (zfill 4 (str_nat (year t)))"
    "length (zfill 2 (str_nat (month s))) = length (zfill 2 (str_nat (month t)))"
    "length (zfill 2 (str_nat (day s))) = length (zfill 2 (str_nat (day t)))"
    "length (zfill 2 (str_nat (hour s))) = length (zfill 2 (str_nat (hour t)))"
    "length (zfill 2 (str_nat (minute s))) = length (zfill 2 (str_nat (minute t)))"
    using assms(1,2) by (simp_all add: valid_datetime_def length_zfill2 length_zfill4)
  from assms(3) l have
    "zfill 4 (str_nat (year s)) = zfill 4 (str_nat (year t))"
    "zfill 2 (str_nat (month s)) = zfill 2 (str_nat (month t))"
    "zfill 2 (str_nat (day s)) = zfill 2 (str_nat (day t))"
    "zfill 2 (str_nat (hour s)) = zfill 2 (str_nat (hour t))"
    "zfill 2 (str_nat (minute s)) = zfill 2 (str_nat (minute t))"
    "zfill 2 (str_nat (second s)) = zfill 2 (str_nat (second t))"
    by (simp_all add: strftime_def)
  then show ?thesis
    by (metis dec_val_zfill)
qed


section \<open>The default identifier\<close>





section \<open>The directories\<close>

lemma changed_only_by_mkdir_keeps:
  "changed_only_by_mkdir fs fs' p \<Longrightarrow> lookup fs q = Some n \<Longrightarrow> lookup fs' q = Some n"
  unfolding changed_only_by_mkdir_def by (metis option.distinct(1))

lemma initialize_experiment_keeps:
  assumes "initialize_experiment sh self w = (Inr u, self', w')"
    and "experiment_directory self' = Value d"
  shows "(\<forall>q. lookup (files w) q = Some Dir \<longrightarrow> lookup (files w') q = Some Dir) \<and>
         (\<forall>q c. lookup (files w) q = Some (File c) \<longrightarrow>
                  (\<exists>c'. lookup (files w') q = Some (File (c @ c')))) \<and>
         (\<forall>q c. lookup (files w) q = Some (File c) \<longrightarrow> q \<noteq> d @ [''info.txt''] \<longrightarrow>
                  lookup (files w') q = Some (File c))"
proof -
  from initialize_experiment_Inr[OF assms(1)] obtain ident fs1 where
    m: "Path_mkdir True True (files w) (group_dir self @ [ident, LOGS_NAME]) = (Inr (), fs1)" and
    f: "files w' = fs1 \<or>
      (auto_commit_git self \<and>
       (\<exists>h w4. files w4 = fs1 \<and> record_info self' (''commit_hash: '' @ h) w4 = (Inr (), w')))"
    by blast
  have k: "\<And>q n. lookup (files w) q = Some n \<Longrightarrow> lookup fs1 q = Some n"
    using changed_only_by_mkdir_keeps[OF Path_mkdir_changes[OF m]] by blast
  from f show ?thesis
  proof
    assume "files w' = fs1"
    with k show ?thesis by auto
  next
    assume "auto_commit_git self \<and>
       (\<exists>h w4. files w4 = fs1 \<and> record_info self' (''commit_hash: '' @ h) w4 = (Inr (), w'))"
    then obtain h w4 where w4: "files w4 = fs1"
      and r: "record_info self' (''commit_hash: '' @ h) w4 = (Inr (), w')" by blast
    note l = record_info_lookup[OF r assms(2)]
    show ?thesis
    proof (intro conjI allI impI)
      fix q assume "lookup (files w) q = Some Dir"
      then have a: "lookup fs1 q = Some Dir" by (rule k)
      have "q \<noteq> d @ [''info.txt'']"
      proof
        assume e: "q = d @ [''info.txt'']"
        from record_info_cases[OF r] assms(2) obtain fs2 where
          "open_append (files w4) (d @ [''info.txt'']) = Inr fs2" by auto
        then have "lookup (files w4) (d @ [''info.txt'']) \<noteq> Some Dir"
          by (auto simp: open_append_def split: if_splits option.splits node.splits)
        with a e w4 show False by simp
      qed
      with a show "lookup (files w') q = Some Dir" by (simp add: l w4)
    next
      fix q c assume "lookup (files w) q = Some (File c)"
      then have a: "lookup fs1 q = Some (File c)" by (rule k)
      show "\<exists>c'. lookup (files w') q = Some (File (c @ c'))"
      proof (cases "q = d @ [''info.txt'']")
        case True
        with a show ?thesis by (simp add: l w4 file_text_def)
      next
        case False
        with a show ?thesis by (simp add: l w4)
      qed
    next
      fix q c assume "lookup (files w) q = Some (File c)" and n: "q \<noteq> d @ [''info.txt'']"
      then have "lookup fs1 q = Some (File c)" using k by blast
      with n show "lookup (files w') q = Some (File c)" by (simp add: l w4)
    qed
  qed
qed

lemma wf_fs_prefix_dir:
  assumes "wf_fs fs" "lookup fs p = Some Dir"
  shows "lookup fs (take k p) = Some Dir"
proof (cases "k < length p")
  case False
  with assms(2) show ?thesis by simp
next
  case True
  then have "drop k p \<noteq> []" by simp
  from wf_fs_ancestors[OF assms(1), of "take k p" "drop k p"] assms(2) this
  show ?thesis by simp
qed

lemma wf_fs_update:
  assumes "wf_fs fs" "p \<noteq> []" "lookup fs (butlast p) = Some Dir" "lookup fs p \<noteq> Some Dir"
  shows "wf_fs (AList.update p n fs)"
  unfolding wf_fs_iff
proof (intro allI impI)
  fix q assume e: "lookup (AList.update p n fs) q \<noteq> None"
  have np: "butlast p \<noteq> p"
    using assms(2) by (metis length_butlast diff_less length_greater_0_conv less_irrefl zero_less_one)
  show "lookup (AList.update p n fs) (butlast q) = Some Dir"
  proof (cases "q = p")
    case True
    with assms np show ?thesis by (simp add: lookup_update)
  next
    case False
    with e assms(2) have "lookup fs q \<noteq> None" by (simp add: lookup_update)
    with assms(1) have d: "lookup fs (butlast q) = Some Dir" by (simp add: wf_fs_iff)
    with assms(4) have "butlast q \<noteq> p" by auto
    with d assms(2) show ?thesis by (simp add: lookup_update)
  qed
qed

lemma wf_fs_open_append:
  "wf_fs fs \<Longrightarrow> open_append fs p = Inr fs1 \<Longrightarrow> wf_fs fs1"
  by (auto simp: open_append_def wf_fs_update split: if_splits option.splits node.splits)

lemma wf_fs_file_write:
  assumes "wf_fs fs" shows "wf_fs (file_write fs p data)"
proof (cases "lookup fs p")
  case None
  then show ?thesis using assms by (simp add: file_write_def)
next
  case (Some n)
  show ?thesis
  proof (cases n)
    case Dir
    with Some assms show ?thesis by (simp add: file_write_def)
  next
    case (File c)
    with Some have l: "lookup fs p = Some (File c)" by simp
    then have ne: "p \<noteq> []" by (auto simp: lookup_def)
    from assms l have "lookup fs (butlast p) = Some Dir" by (simp add: wf_fs_iff)
    from wf_fs_update[OF assms ne this] l show ?thesis by (simp add: file_write_def)
  qed
qed

lemma wf_fs_record_info:
  "wf_fs (files w) \<Longrightarrow> record_info self info w = (r, w') \<Longrightarrow> wf_fs (files w')"
  by (auto dest!: record_info_cases simp: wf_fs_open_append wf_fs_file_write)

lemma initialize_experiment_wf:
  assumes "initialize_experiment sh self w = (Inr u, self', w')" "wf_fs (files w)"
  shows "wf_fs (files w')"
proof -
  from initialize_experiment_Inr[OF assms(1)] obtain ident fs1 where
    m: "Path_mkdir True True (files w) (group_dir self @ [ident, LOGS_NAME]) = (Inr (), fs1)" and
    f: "files w' = fs1 \<or>
      (auto_commit_git self \<and>
       (\<exists>h w4. files w4 = fs1 \<and> record_info self' (''commit_hash: '' @ h) w4 = (Inr (), w')))"
    by blast
  have "wf_fs fs1" using assms(2) m by (rule wf_fs_Path_mkdir)
  with f show ?thesis by (auto dest: wf_fs_record_info)
qed


text \<open>
  C5. For an instance constructed for a root and a group, once
  \<^verbatim>\<open>initialize_experiment\<close> has returned (in a well-formed filesystem), the path
  root/group/identifier/logs is a directory, and so is each of its ancestors, whether
  they existed before or not; it is the value of \<^verbatim>\<open>logs_path\<close>. Nothing that existed is
  cleared: a directory is still a directory and a file still starts with the text it
  had. When the logs directory is there already, its creation succeeds and changes
  nothing.
\<close>

theorem initialize_creates_logs_directory:
  assumes "Experiment_init root name grp auto_commit outputs logging_module custom w0 = (Inr self, w0')"
    and "initialize_experiment sh self w = (Inr (), self', w')"
    and "wf_fs (files w)"
  shows "\<exists>ident.
     call_id_generator self w = Inr ident \<and>
     logs_path self' = Inr (root @ [grp, ident, LOGS_NAME]) \<and>
     is_dir (files w') (root @ [grp, ident, LOGS_NAME]) \<and>
     (\<forall>k. is_dir (files w') (take k (root @ [grp, ident, LOGS_NAME]))) \<and>
     (\<forall>q. is_dir (files w) q \<longrightarrow> is_dir (files w') q) \<and>
     (\<forall>q c. lookup (files w) q = Some (File c) \<longrightarrow>
              (\<exists>c'. lookup (files w') q = Some (File (c @ c')))) \<and>
     (is_dir (files w) (root @ [grp, ident, LOGS_NAME]) \<longrightarrow>
        Path_mkdir True True (files w) (root @ [grp, ident, LOGS_NAME]) = (Inr (), files w))"
proof -
  from Experiment_init_Inr[OF assms(1)] have g: "group_dir self = root @ [grp]"
    by (auto simp: assign_attributes_def)
  from initialize_experiment_dirs[OF assms(2,3)] obtain ident where
    i: "call_id_generator self w = Inr ident" and
    e: "experiment_directory self' = Value (group_dir self @ [ident])" and
    l: "logs_dir self' = Value (group_dir self @ [ident, LOGS_NAME])" and
    d: "lookup (files w') (group_dir self @ [ident, LOGS_NAME]) = Some Dir"
    by blast
  have wf': "wf_fs (files w')" using assms(2,3) by (rule initialize_experiment_wf)
  have p: "\<forall>k. is_dir (files w') (take k (root @ [grp, ident, LOGS_NAME]))"
    using wf_fs_prefix_dir[OF wf' d] by (simp add: is_dir_def g)
  note keep = initialize_experiment_keeps[OF assms(2) e]
  have ex: "is_dir (files w) (root @ [grp, ident, LOGS_NAME]) \<longrightarrow>
        Path_mkdir True True (files w) (root @ [grp, ident, LOGS_NAME]) = (Inr (), files w)"
    using Path_mkdir_existing[OF assms(3)] by (simp add: is_dir_def)
  from i l d p keep ex show ?thesis
    by (intro exI[of _ ident]) (simp add: logs_path_def is_dir_def g)
qed

theorem initialize_creates_logs_directory_witness:
  "fst example_initialized = Inr () \<and>
   logs_path (fst (snd example_initialized))
     = Inr [''exp'', ''grp'', ''0_2024-01-02_03-04-05'', ''logs''] \<and>
   is_dir (files (snd (snd example_initialized)))
     [''exp'', ''grp'', ''0_2024-01-02_03-04-05'', ''logs''] \<and>
   is_dir (files (snd (snd example_initialized))) [''exp'', ''grp'']"
proof -
  let ?self = "fst (snd example_initialized)" and ?w = "snd (snd example_initialized)"
  let ?start = "example_world\<lparr>root_level := DEBUG\<rparr>"
  have h0: "Experiment_init [''exp''] ''run'' ''grp'' default_auto_commit_git default_outputs_name
             PyNone default_custom_id_generator example_world = (Inr example_self, ?start)"
    by (simp add: Experiment_init_None example_self_def)
  have h1: "initialize_experiment example_shell example_self ?start = (Inr (), ?self, ?w)"
    unfolding example_initialized_def[symmetric] by (simp add: example_initialized_eq)
  have h2: "wf_fs (files ?start)" by (simp add: example_world_def wf_fs_def)
  have i: "call_id_generator example_self ?start = Inr ''0_2024-01-02_03-04-05''"
    by (simp add: example_self_def example_world_def example_stamp class_defs fs_defs
          str_nat_digit digit_char_def)
  from initialize_creates_logs_directory[OF h0 h1 h2] i
  have a: "logs_path ?self = Inr ([''exp''] @ [''grp'', ''0_2024-01-02_03-04-05'', LOGS_NAME])"
    and b: "is_dir (files ?w) ([''exp''] @ [''grp'', ''0_2024-01-02_03-04-05'', LOGS_NAME])"
    and c: "\<And>k. is_dir (files ?w) (take k ([''exp''] @ [''grp'', ''0_2024-01-02_03-04-05'', LOGS_NAME]))"
    by auto
  have e0: "fst example_initialized = Inr ()" by (simp add: example_initialized_eq)
  from a b c[of 2] e0 show ?thesis by (simp add: LOGS_NAME_def)
qed






section \<open>The snapshot sequence\<close>

lemma after_run_fields [simp]:
  "files (after_run w args g) = files w" "cwd (after_run w args g) = cwd w"
  "clock (after_run w args g) = clock w" "repo (after_run w args g) = g"
  "log_calls (after_run w args g) = log_calls w"
  "proc_calls (after_run w args g) = proc_calls w @ [(args, cwd w)]"
  by (simp_all add: after_run_def)

lemma subprocess_run_Exited:
  "sh args (cwd w) (repo w) = (Exited rc so, g) \<Longrightarrow>
   subprocess_run sh args check w =
     (if check \<and> rc \<noteq> 0 then Inl (CalledProcessError rc args) else Inr (rc, so),
      after_run w args g)"
  by (simp add: subprocess_run_def after_run_def Let_def)

lemma subprocess_run_SpawnFailed:
  "sh args (cwd w) (repo w) = (SpawnFailed e, g) \<Longrightarrow>
   subprocess_run sh args check w = (Inl e, after_run w args g)"
  by (simp add: subprocess_run_def after_run_def Let_def)

lemma subprocess_run_after:
  "\<exists>r g. subprocess_run sh args check w = (r, after_run w args g)"
proof (cases "sh args (cwd w) (repo w)")
  case (Pair out g)
  then show ?thesis
    by (cases out) (auto simp: subprocess_run_Exited subprocess_run_SpawnFailed)
qed

lemma record_info_proc_calls:
  "record_info self info w = (r, w') \<Longrightarrow> proc_calls w' = proc_calls w \<and> log_calls w' = log_calls w"
  by (auto dest!: record_info_cases)

lemma record_info_not_called_process_error:
  "record_info self info w = (Inl e, w') \<Longrightarrow> e \<noteq> CalledProcessError rc args"
  by (auto simp: record_info_def split: attr.splits sum.splits dest: open_append_error)

lemma snapshot_steps_trace:
  assumes "snapshot_steps sh self msg push w = (r, w')"
  shows "\<exists>k \<in> {1, 2, 3, 4}. proc_calls w' = proc_calls w @ take k (snapshot_commands msg (cwd w))"
proof -
  obtain r1 g1 where s1: "subprocess_run sh git_add True w = (r1, after_run w git_add g1)"
    using subprocess_run_after[of sh git_add True w] by blast
  let ?w1 = "after_run w git_add g1"
  obtain r2 g2 where s2: "subprocess_run sh git_diff False ?w1 = (r2, after_run ?w1 git_diff g2)"
    using subprocess_run_after[of sh git_diff False ?w1] by blast
  let ?w2 = "after_run ?w1 git_diff g2"
  obtain r3 g3 where s3: "subprocess_run sh (git_commit msg) True ?w2
        = (r3, after_run ?w2 (git_commit msg) g3)"
    using subprocess_run_after[of sh "git_commit msg" True ?w2] by blast
  let ?w3 = "after_run ?w2 (git_commit msg) g3"
  obtain r4 g4 where s4: "subprocess_run sh git_rev_parse True ?w3
        = (r4, after_run ?w3 git_rev_parse g4)"
    using subprocess_run_after[of sh git_rev_parse True ?w3] by blast
  from assms s1 s2 s3 s4 show ?thesis
    by (auto simp: snapshot_steps_def record_commit_hash_def snapshot_commands_def
          split: sum.splits dest!: record_info_proc_calls)
qed

lemma do_auto_commit_trace:
  assumes "do_auto_commit sh self msg push w = (r, w')"
  shows "\<exists>k \<in> {1, 2, 3, 4}. proc_calls w' = proc_calls w @ take k (snapshot_commands msg (cwd w))"
proof -
  obtain r0 w0 where s: "snapshot_steps sh self msg push w = (r0, w0)" by force
  have "proc_calls w' = proc_calls w0"
    using assms s by (auto simp: do_auto_commit_def split: sum.splits error.splits)
  with snapshot_steps_trace[OF s] show ?thesis by simp
qed

lemma git_push_not_in_snapshot:
  "(git_push, d') \<notin> set (take k (snapshot_commands msg d))"
proof
  assume "(git_push, d') \<in> set (take k (snapshot_commands msg d))"
  then have "(git_push, d') \<in> set (snapshot_commands msg d)" by (rule in_set_takeD)
  then show False
    by (simp add: snapshot_commands_def git_push_def git_add_def git_diff_def git_commit_def
          git_rev_parse_def)
qed

lemma snapshot_steps_add_fails:
  "sh git_add (cwd w) (repo w) = (Exited rc out, g1) \<Longrightarrow> rc \<noteq> 0 \<Longrightarrow>
   snapshot_steps sh self msg push w = (Inl (CalledProcessError rc git_add), after_run w git_add g1)"
  by (simp add: snapshot_steps_def subprocess_run_Exited)

lemma snapshot_steps_commit_fails:
  "sh git_add (cwd w) (repo w) = (Exited 0 o1, g1) \<Longrightarrow>
   sh git_diff (cwd w) g1 = (Exited r o2, g2) \<Longrightarrow>
   sh (git_commit msg) (cwd w) g2 = (Exited rc out, g3) \<Longrightarrow> rc \<noteq> 0 \<Longrightarrow>
   snapshot_steps sh self msg push w =
     (Inl (CalledProcessError rc (git_commit msg)),
      after_run (after_run (after_run w git_add g1) git_diff g2) (git_commit msg) g3)"
  by (simp add: snapshot_steps_def subprocess_run_Exited)


lemma snapshot_steps_succeeds:
  "sh git_add (cwd w) (repo w) = (Exited 0 o1, g1) \<Longrightarrow>
   sh git_diff (cwd w) g1 = (Exited r o2, g2) \<Longrightarrow>
   sh (git_commit msg) (cwd w) g2 = (Exited 0 o3, g3) \<Longrightarrow>
   sh git_rev_parse (cwd w) g3 = (Exited 0 out, g4) \<Longrightarrow>
   snapshot_steps sh self msg push w =
     record_info self (''commit_hash: '' @ strip out)
       (after_run (after_run (after_run (after_run w git_add g1) git_diff g2) (git_commit msg) g3)
          git_rev_parse g4)"
  by (simp add: snapshot_steps_def subprocess_run_Exited record_commit_hash_def)


lemma do_auto_commit_passes:
  "snapshot_steps sh self msg push w = record_info self info w1 \<Longrightarrow>
   do_auto_commit sh self msg push w = record_info self info w1"
proof -
  assume a: "snapshot_steps sh self msg push w = record_info self info w1"
  obtain r w' where r: "record_info self info w1 = (r, w')" by force
  show ?thesis
  proof (cases r)
    case (Inr u)
    with a r show ?thesis by (simp add: do_auto_commit_def)
  next
    case (Inl e)
    with r have "\<And>rc args. e \<noteq> CalledProcessError rc args"
      using record_info_not_called_process_error by blast
    with a r Inl show ?thesis by (cases e) (auto simp: do_auto_commit_def)
  qed
qed

text \<open>
  The handler names \<^verbatim>\<open>CalledProcessError\<close> only: when the first command cannot be
  started at all, the error of \<^verbatim>\<open>subprocess.run\<close> leaves \<^verbatim>\<open>_do_auto_commit\<close>.
\<close>

lemma do_auto_commit_not_started:
  assumes "sh git_add (cwd w) (repo w) = (SpawnFailed e, g1)"
    and "\<And>rc args. e \<noteq> CalledProcessError rc args"
  shows "do_auto_commit sh self msg push w = (Inl e, after_run w git_add g1)"
proof -
  have "snapshot_steps sh self msg push w = (Inl e, after_run w git_add g1)"
    using assms(1) by (simp add: snapshot_steps_def subprocess_run_SpawnFailed)
  with assms(2) show ?thesis by (cases e) (auto simp: do_auto_commit_def)
qed

lemma strip_spec:
  "\<exists>pre post. s = pre @ strip s @ post \<and> list_all is_space pre \<and> list_all is_space post \<and>
     (strip s \<noteq> [] \<longrightarrow> \<not> is_space (hd (strip s)) \<and> \<not> is_space (last (strip s)))"
proof -
  let ?t = "dropWhile is_space s"
  let ?pre = "takeWhile is_space s"
  let ?post = "rev (takeWhile is_space (rev ?t))"
  have t: "?t = strip s @ ?post"
  proof -
    have "?t = rev (rev ?t)" by simp
    also have "\<dots> = rev (takeWhile is_space (rev ?t) @ dropWhile is_space (rev ?t))"
      by (simp only: takeWhile_dropWhile_id)
    also have "\<dots> = rev (dropWhile is_space (rev ?t)) @ rev (takeWhile is_space (rev ?t))"
      by (simp only: rev_append)
    finally show ?thesis by (simp add: strip_def)
  qed
  have s: "s = ?pre @ strip s @ ?post"
    using t takeWhile_dropWhile_id[of is_space s] by simp
  have p1: "list_all is_space ?pre"
    by (simp add: list_all_iff) (meson set_takeWhileD)
  have p2: "list_all is_space ?post"
    by (simp add: list_all_iff) (meson set_takeWhileD)
  have e: "strip s \<noteq> [] \<longrightarrow> \<not> is_space (hd (strip s)) \<and> \<not> is_space (last (strip s))"
  proof
    assume ne: "strip s \<noteq> []"
    then have d: "dropWhile is_space (rev ?t) \<noteq> []" by (simp add: strip_def)
    have l: "last (strip s) = hd (dropWhile is_space (rev ?t))"
      using d by (simp add: strip_def last_rev)
    have "\<not> is_space (hd (dropWhile is_space (rev ?t)))"
      using d by (rule hd_dropWhile)
    with l have a: "\<not> is_space (last (strip s))" by simp
    have tne: "?t \<noteq> []"
    proof
      assume "?t = []"
      with t ne show False by (metis append_is_Nil_conv)
    qed
    then have "\<not> is_space (hd ?t)" by (rule hd_dropWhile)
    moreover have "hd ?t = hd (strip s)" using t ne by (metis hd_append2)
    ultimately show "\<not> is_space (hd (strip s)) \<and> \<not> is_space (last (strip s))"
      using a by simp
  qed
  from s p1 p2 e show ?thesis by blast
qed



text \<open>
  C2. The commands that \<^verbatim>\<open>_do_auto_commit\<close> starts are an initial part of: stage all
  changes, probe the staged difference, commit with the message, read the head
  identifier; a push is never among them, whatever the flag \<^verbatim>\<open>push\<close>. A non-zero status
  of the staging or of the commit ends the sequence with that failure; the status of the
  probe is ignored. When all four have run, the output of the last, stripped of the white
  space around it, is recorded as the line \<^verbatim>\<open>commit_hash: <identifier>\<close> at the end of
  \<^verbatim>\<open>info.txt\<close>.
\<close>

theorem snapshot_sequence_in_order:
  "(\<forall>r w'. do_auto_commit sh self msg push w = (r, w') \<longrightarrow>
      (\<exists>k \<in> {1, 2, 3, 4}.
         proc_calls w' = proc_calls w @ take k (snapshot_commands msg (cwd w)) \<and>
         (\<forall>d. (git_push, d) \<notin> set (take k (snapshot_commands msg (cwd w)))))) \<and>
   do_auto_commit sh self msg True w = do_auto_commit sh self msg False w \<and>
   (\<forall>rc out g1.
      sh git_add (cwd w) (repo w) = (Exited rc out, g1) \<and> rc \<noteq> 0 \<longrightarrow>
      snapshot_steps sh self msg push w
        = (Inl (CalledProcessError rc git_add), after_run w git_add g1)) \<and>
   (\<forall>o1 g1 r o2 g2 rc out g3.
      sh git_add (cwd w) (repo w) = (Exited 0 o1, g1) \<and>
      sh git_diff (cwd w) g1 = (Exited r o2, g2) \<and>
      sh (git_commit msg) (cwd w) g2 = (Exited rc out, g3) \<and> rc \<noteq> 0 \<longrightarrow>
      snapshot_steps sh self msg push w
        = (Inl (CalledProcessError rc (git_commit msg)),
           after_run (after_run (after_run w git_add g1) git_diff g2) (git_commit msg) g3)) \<and>
   (\<forall>o1 g1 r o2 g2 o3 g3 out g4.
      sh git_add (cwd w) (repo w) = (Exited 0 o1, g1) \<and>
      sh git_diff (cwd w) g1 = (Exited r o2, g2) \<and>
      sh (git_commit msg) (cwd w) g2 = (Exited 0 o3, g3) \<and>
      sh git_rev_parse (cwd w) g3 = (Exited 0 out, g4) \<longrightarrow>
      do_auto_commit sh self msg push w
        = record_info self (''commit_hash: '' @ strip out)
            (after_run (after_run (after_run (after_run w git_add g1) git_diff g2)
               (git_commit msg) g3) git_rev_parse g4) \<and>
      (\<forall>d w'. experiment_directory self = Value d \<and>
               do_auto_commit sh self msg push w = (Inr (), w') \<longrightarrow>
         proc_calls w' = proc_calls w @ snapshot_commands msg (cwd w) \<and>
         lookup (files w') (d @ [''info.txt''])
           = Some (File (file_text (files w) (d @ [''info.txt'']) @
                         ''commit_hash: '' @ strip out @ [newline])))) \<and>
   (\<forall>out. \<exists>pre post.
      out = pre @ strip out @ post \<and> list_all is_space pre \<and> list_all is_space post \<and>
      (strip out \<noteq> [] \<longrightarrow> \<not> is_space (hd (strip out)) \<and> \<not> is_space (last (strip out))))"
proof (intro conjI allI impI)
  fix r w' assume "do_auto_commit sh self msg push w = (r, w')"
  from do_auto_commit_trace[OF this] git_push_not_in_snapshot
  show "\<exists>k \<in> {1, 2, 3, 4}.
         proc_calls w' = proc_calls w @ take k (snapshot_commands msg (cwd w)) \<and>
         (\<forall>d. (git_push, d) \<notin> set (take k (snapshot_commands msg (cwd w))))"
    by blast
next
  show "do_auto_commit sh self msg True w = do_auto_commit sh self msg False w"
    by (simp add: do_auto_commit_def snapshot_steps_def)
next
  fix rc out g1
  assume "sh git_add (cwd w) (repo w) = (Exited rc out, g1) \<and> rc \<noteq> 0"
  then show "snapshot_steps sh self msg push w
        = (Inl (CalledProcessError rc git_add), after_run w git_add g1)"
    by (simp add: snapshot_steps_add_fails)
next
  fix o1 g1 r o2 g2 rc out g3
  assume "sh git_add (cwd w) (repo w) = (Exited 0 o1, g1) \<and>
      sh git_diff (cwd w) g1 = (Exited r o2, g2) \<and>
      sh (git_commit msg) (cwd w) g2 = (Exited rc out, g3) \<and> rc \<noteq> 0"
  then show "snapshot_steps sh self msg push w
        = (Inl (CalledProcessError rc (git_commit msg)),
           after_run (after_run (after_run w git_add g1) git_diff g2) (git_commit msg) g3)"
    using snapshot_steps_commit_fails[of sh w o1 g1 r o2 g2 msg rc out g3 self push] by simp
next
  fix o1 g1 r o2 g2 o3 g3 out g4
  assume a: "sh git_add (cwd w) (repo w) = (Exited 0 o1, g1) \<and>
      sh git_diff (cwd w) g1 = (Exited r o2, g2) \<and>
      sh (git_commit msg) (cwd w) g2 = (Exited 0 o3, g3) \<and>
      sh git_rev_parse (cwd w) g3 = (Exited 0 out, g4)"
  let ?w4 = "after_run (after_run (after_run (after_run w git_add g1) git_diff g2)
               (git_commit msg) g3) git_rev_parse g4"
  from a have s: "snapshot_steps sh self msg push w
                    = record_info self (''commit_hash: '' @ strip out) ?w4"
    using snapshot_steps_succeeds[of sh w o1 g1 r o2 g2 msg o3 g3 out g4 self push] by simp
  then show d: "do_auto_commit sh self msg push w
                  = record_info self (''commit_hash: '' @ strip out) ?w4"
    by (rule do_auto_commit_passes)
  fix d w'
  assume b: "experiment_directory self = Value d \<and>
             do_auto_commit sh self msg push w = (Inr (), w')"
  with d have r: "record_info self (''commit_hash: '' @ strip out) ?w4 = (Inr (), w')" by simp
  from record_info_proc_calls[OF r]
  show "proc_calls w' = proc_calls w @ snapshot_commands msg (cwd w)"
    by (simp add: snapshot_commands_def)
  from b have ed: "experiment_directory self = Value d" by simp
  show "lookup (files w') (d @ [''info.txt''])
           = Some (File (file_text (files w) (d @ [''info.txt'']) @
                         ''commit_hash: '' @ strip out @ [newline]))"
    by (simp add: record_info_lookup[OF r ed] file_text_def)
next
  fix out
  show "\<exists>pre post.
      out = pre @ strip out @ post \<and> list_all is_space pre \<and> list_all is_space post \<and>
      (strip out \<noteq> [] \<longrightarrow> \<not> is_space (hd (strip out)) \<and> \<not> is_space (last (strip out)))"
    by (rule strip_spec)
qed

lemma log_calls_log_info [simp]:
  "log_calls (log_info lg msg w) =
     log_calls w @ [\<lparr>le_logger = lg, le_level = INFO, le_message = msg, le_exc_info = None\<rparr>]"
  by (simp add: log_info_def)

lemma log_calls_log_exception [simp]:
  "log_calls (log_exception lg msg e w) =
     log_calls w @ [\<lparr>le_logger = lg, le_level = ERROR, le_message = msg, le_exc_info = Some e\<rparr>]"
  by (simp add: log_exception_def)

lemma example_shell_runs:
  "example_shell git_add d g = (Exited 0 [], g)"
  "example_shell git_diff d g = (Exited 0 [], g)"
  "example_shell (git_commit msg) d g = (Exited 0 [], g)"
  "example_shell git_rev_parse d g = (Exited 0 (''0a1b2c'' @ [newline]), g)"
  by (simp_all add: example_shell_def git_add_def git_diff_def git_commit_def git_rev_parse_def)

lemma nothing_to_commit_shell_runs:
  "nothing_to_commit_shell git_add d g = (Exited 0 [], g)"
  "nothing_to_commit_shell git_diff d g = (Exited 0 [], g)"
  "nothing_to_commit_shell (git_commit msg) d g = (Exited 1 [], g)"
  by (simp_all add: nothing_to_commit_shell_def git_add_def git_diff_def git_commit_def
        git_rev_parse_def)

lemma strip_example: "strip (''0a1b2c'' @ [newline]) = ''0a1b2c''"
  by (simp add: strip_def is_space_def newline_def)

theorem snapshot_sequence_in_order_witness:
  "(\<exists>w'. do_auto_commit example_shell (fst (snd example_initialized)) ''m'' False
            (snd (snd example_initialized)) = (Inr (), w') \<and>
         proc_calls w' = snapshot_commands ''m'' [''repo''] \<and>
         lookup (files w') [''exp'', ''grp'', ''0_2024-01-02_03-04-05'', ''info.txt'']
           = Some (File (''commit_hash: 0a1b2c'' @ [newline]))) \<and>
   fst (snapshot_steps nothing_to_commit_shell (fst (snd example_initialized)) ''m'' False
          (snd (snd example_initialized)))
     = Inl (CalledProcessError 1 (git_commit ''m''))"
proof -
  let ?self = "fst (snd example_initialized)" and ?w = "snd (snd example_initialized)"
  let ?d = "[''exp'', ''grp'', ''0_2024-01-02_03-04-05'']"
  have c: "cwd ?w = [''repo'']" and p: "proc_calls ?w = []" and g: "repo ?w = ()"
    by (simp_all add: example_initialized_eq example_world_def)
  have ed: "experiment_directory ?self = Value ?d"
    by (simp add: example_initialized_eq)
  have dir: "lookup (files ?w) ?d = Some Dir"
    and n: "lookup (files ?w) (?d @ [''info.txt'']) = None"
    by (simp_all add: example_initialized_eq lookup_def)
  have t: "file_text (files ?w) (?d @ [''info.txt'']) = []"
    using n by (simp add: file_text_def)
  note T1 = snapshot_sequence_in_order[of example_shell ?self "''m''" False ?w]
  note S = T1[THEN conjunct2, THEN conjunct2, THEN conjunct2, THEN conjunct2, THEN conjunct1,
              rule_format, of "[]" "()" 0 "[]" "()" "[]" "()" "''0a1b2c'' @ [newline]" "()"]
  have runs: "example_shell git_add (cwd ?w) (repo ?w) = (Exited 0 [], ()) \<and>
        example_shell git_diff (cwd ?w) () = (Exited 0 [], ()) \<and>
        example_shell (git_commit ''m'') (cwd ?w) () = (Exited 0 [], ()) \<and>
        example_shell git_rev_parse (cwd ?w) () = (Exited 0 (''0a1b2c'' @ [newline]), ())"
    by (simp add: example_shell_runs)
  let ?w4 = "after_run (after_run (after_run (after_run ?w git_add ()) git_diff ())
               (git_commit ''m'') ()) git_rev_parse ()"
  from S[OF runs] have
    eq: "do_auto_commit example_shell ?self ''m'' False ?w
           = record_info ?self (''commit_hash: '' @ strip (''0a1b2c'' @ [newline])) ?w4"
    and fin: "\<And>d w'. experiment_directory ?self = Value d \<and>
               do_auto_commit example_shell ?self ''m'' False ?w = (Inr (), w') \<Longrightarrow>
         proc_calls w' = proc_calls ?w @ snapshot_commands ''m'' (cwd ?w) \<and>
         lookup (files w') (d @ [''info.txt''])
           = Some (File (file_text (files ?w) (d @ [''info.txt'']) @
                         ''commit_hash: '' @ strip (''0a1b2c'' @ [newline]) @ [newline]))"
    by blast+
  have "\<exists>w'. record_info ?self (''commit_hash: '' @ strip (''0a1b2c'' @ [newline])) ?w4 = (Inr (), w')"
    using record_info_succeeds[OF ed, of ?w4] dir n by simp
  with eq obtain w' where
    r: "do_auto_commit example_shell ?self ''m'' False ?w = (Inr (), w')" by auto
  from fin[of ?d w'] ed r c p t
  have "proc_calls w' = snapshot_commands ''m'' [''repo''] \<and>
        lookup (files w') [''exp'', ''grp'', ''0_2024-01-02_03-04-05'', ''info.txt'']
           = Some (File (''commit_hash: 0a1b2c'' @ [newline]))"
    by (simp add: strip_example[simplified])
  with r have first: "\<exists>w'. do_auto_commit example_shell ?self ''m'' False ?w = (Inr (), w') \<and>
         proc_calls w' = snapshot_commands ''m'' [''repo''] \<and>
         lookup (files w') [''exp'', ''grp'', ''0_2024-01-02_03-04-05'', ''info.txt'']
           = Some (File (''commit_hash: 0a1b2c'' @ [newline]))"
    by blast
  note T2 = snapshot_sequence_in_order[of nothing_to_commit_shell ?self "''m''" False ?w]
  note F = T2[THEN conjunct2, THEN conjunct2, THEN conjunct2, THEN conjunct1,
              rule_format, of "[]" "()" 0 "[]" "()" 1 "[]" "()"]
  have fails: "nothing_to_commit_shell git_add (cwd ?w) (repo ?w) = (Exited 0 [], ()) \<and>
        nothing_to_commit_shell git_diff (cwd ?w) () = (Exited 0 [], ()) \<and>
        nothing_to_commit_shell (git_commit ''m'') (cwd ?w) () = (Exited 1 [], ()) \<and> (1::int) \<noteq> 0"
    by (simp add: nothing_to_commit_shell_runs)
  from F[OF fails] have second:
    "fst (snapshot_steps nothing_to_commit_shell ?self ''m'' False ?w)
       = Inl (CalledProcessError 1 (git_commit ''m''))"
    by simp
  from first second show ?thesis by blast
qed



lemma initialize_experiment_auto_commit:
  assumes "auto_commit_git self" "call_id_generator self w = Inr ident"
    "Path_mkdir True True (files w) (group_dir self @ [ident, LOGS_NAME]) = (Inr (), fs1)"
  shows "initialize_experiment sh self w =
     (let self3 = self\<lparr>experiment_directory := Value (group_dir self @ [ident]),
                        logs_dir := Value (group_dir self @ [ident, LOGS_NAME]),
                        output_dir := Some (group_dir self @ [ident, outputs_name self])\<rparr>;
          w3 = log_info (logger_of self) ''auto-creating experiment commit...''
                 (log_info (logger_of self) (''Initializing experiment: '' @
                    path_name (group_dir self) @ ''/'' @ experiment_name self) w\<lparr>files := fs1\<rparr>);
          res = do_auto_commit sh self3 (''Experiment auto-commit: '' @
                    path_name (group_dir self) @ ''/'' @ experiment_name self) False w3
      in (fst res, self3, snd res))"
  using assms by (simp add: initialize_experiment_def Let_def split: prod.splits)




section \<open>Initializing twice\<close>

lemma strftime_same_second:
  "same_second s t \<Longrightarrow> strftime s = strftime t"
  by (simp add: same_second_def strftime_def)

lemma strftime_eq_close:
  assumes "valid_datetime s" "valid_datetime t" "strftime s = strftime t"
  shows "\<bar>total_microseconds s - total_microseconds t\<bar> < 1000000"
proof -
  from strftime_inj[OF assms] have
    e: "year s = year t" "month s = month t" "day s = day t"
       "hour s = hour t" "minute s = minute t" "second s = second t"
    by simp_all
  then have "total_microseconds s - total_microseconds t = int (microsecond s) - int (microsecond t)"
    by (simp add: total_microseconds_def toordinal_def)
  moreover from assms(1,2) have "microsecond s < 1000000" "microsecond t < 1000000"
    by (simp_all add: valid_datetime_def)
  ultimately show ?thesis by simp
qed

lemma default_id_generator_Inr:
  "default_id_generator self w = Inr i \<Longrightarrow>
     \<exists>n. get_experiment_index self w = Inr n \<and> i = str_nat n @ ''_'' @ strftime (clock w)"
  by (auto simp: default_id_generator_def split: sum.splits)

lemma default_ids_distinct:
  assumes "default_id_generator self w = Inr i" "default_id_generator self' w' = Inr i'"
    "valid_datetime (clock w)" "valid_datetime (clock w')"
    "1000000 \<le> \<bar>total_microseconds (clock w') - total_microseconds (clock w)\<bar>"
  shows "i' \<noteq> i"
proof
  assume e: "i' = i"
  from default_id_generator_Inr[OF assms(1)] obtain n where
    i: "i = str_nat n @ ''_'' @ strftime (clock w)" by blast
  from default_id_generator_Inr[OF assms(2)] obtain n' where
    i': "i' = str_nat n' @ ''_'' @ strftime (clock w')" by blast
  have "length (''_'' @ strftime (clock w)) = length (''_'' @ strftime (clock w'))"
    using assms(3,4) by (simp add: length_strftime)
  with e i i' have "''_'' @ strftime (clock w') = ''_'' @ strftime (clock w)"
    by (metis append_eq_append_conv)
  then have "strftime (clock w') = strftime (clock w)" by simp
  from strftime_eq_close[OF assms(4,3) this] assms(5) show False by simp
qed

lemma default_ids_collide:
  assumes "default_id_generator self w = Inr i" "default_id_generator self' w' = Inr i'"
    "same_second (clock w) (clock w')" "get_experiment_index self w = get_experiment_index self' w'"
  shows "i' = i"
  using assms strftime_same_second[OF assms(3)]
  by (auto simp: default_id_generator_def split: sum.splits)

lemma call_id_generator_updates:
  "call_id_generator (self\<lparr>experiment_directory := a, logs_dir := b, output_dir := c\<rparr>) w
     = call_id_generator self w"
  by (simp add: call_id_generator_def default_id_generator_def get_experiment_index_def
        split: id_gen.splits)

lemma initialize_experiment_id_error:
  "call_id_generator self w = Inl e \<Longrightarrow>
   initialize_experiment sh self w =
     (Inl e, self, log_info (logger_of self) (''Initializing experiment: '' @
          path_name (group_dir self) @ ''/'' @ experiment_name self) w)"
  by (simp add: initialize_experiment_def Let_def)

lemma initialize_experiment_mkdir_error:
  "call_id_generator self w = Inr ident \<Longrightarrow>
   Path_mkdir True True (files w) (group_dir self @ [ident, LOGS_NAME]) = (Inl e, fs1) \<Longrightarrow>
   initialize_experiment sh self w =
     (Inl e,
      self\<lparr>experiment_directory := Value (group_dir self @ [ident]),
           logs_dir := Value (group_dir self @ [ident, LOGS_NAME])\<rparr>,
      (log_info (logger_of self) (''Initializing experiment: '' @
          path_name (group_dir self) @ ''/'' @ experiment_name self) w)\<lparr>files := fs1\<rparr>)"
  by (simp add: initialize_experiment_def Let_def)

lemma initialize_experiment_no_commit:
  assumes "\<not> auto_commit_git self" "call_id_generator self w = Inr ident"
    "Path_mkdir True True (files w) (group_dir self @ [ident, LOGS_NAME]) = (Inr (), fs1)"
  shows "initialize_experiment sh self w =
     (Inr (),
      self\<lparr>experiment_directory := Value (group_dir self @ [ident]),
           logs_dir := Value (group_dir self @ [ident, LOGS_NAME]),
           output_dir := Some (group_dir self @ [ident, outputs_name self])\<rparr>,
      (log_info (logger_of self) (''Initializing experiment: '' @
          path_name (group_dir self) @ ''/'' @ experiment_name self) w)\<lparr>files := fs1\<rparr>)"
  using assms by (simp add: initialize_experiment_def Let_def)


lemma initialize_experiment_reinitialize:
  "fst (initialize_experiment sh
          (self\<lparr>experiment_directory := a, logs_dir := b, output_dir := c\<rparr>) w)
     = fst (initialize_experiment sh self w) \<and>
   snd (snd (initialize_experiment sh
          (self\<lparr>experiment_directory := a, logs_dir := b, output_dir := c\<rparr>) w))
     = snd (snd (initialize_experiment sh self w)) \<and>
   (fst (initialize_experiment sh self w) = Inr () \<longrightarrow>
    fst (snd (initialize_experiment sh
          (self\<lparr>experiment_directory := a, logs_dir := b, output_dir := c\<rparr>) w))
      = fst (snd (initialize_experiment sh self w)))"
proof -
  let ?s = "self\<lparr>experiment_directory := a, logs_dir := b, output_dir := c\<rparr>"
  show ?thesis
  proof (cases "call_id_generator self w")
    case (Inl e)
    then have "call_id_generator ?s w = Inl e" by (simp add: call_id_generator_updates)
    from initialize_experiment_id_error[OF this, of sh]
      initialize_experiment_id_error[OF Inl, of sh]
    show ?thesis by simp
  next
    case (Inr ident)
    then have i: "call_id_generator ?s w = Inr ident" by (simp add: call_id_generator_updates)
    obtain r fs1 where
      m: "Path_mkdir True True (files w) (group_dir self @ [ident, LOGS_NAME]) = (r, fs1)"
      by force
    then have m': "Path_mkdir True True (files w) (group_dir ?s @ [ident, LOGS_NAME]) = (r, fs1)"
      by simp
    show ?thesis
    proof (cases r)
      case (Inl e)
      from initialize_experiment_mkdir_error[OF i m'[unfolded Inl], of sh]
        initialize_experiment_mkdir_error[OF Inr m[unfolded Inl], of sh]
      show ?thesis by simp
    next
      case ok: (Inr u)
      show ?thesis
      proof (cases "auto_commit_git self")
        case False
        then have f: "\<not> auto_commit_git ?s" by simp
        from initialize_experiment_no_commit[OF f i, of fs1 sh] m' ok
          initialize_experiment_no_commit[OF False Inr, of fs1 sh] m
        show ?thesis by simp
      next
        case True
        then have t: "auto_commit_git ?s" by simp
        from initialize_experiment_auto_commit[OF t i, of fs1 sh] m' ok
          initialize_experiment_auto_commit[OF True Inr, of fs1 sh] m
        show ?thesis by (simp add: Let_def)
      qed
    qed
  qed
qed


lemma no_file_on_the_way:
  assumes "wf_fs fs" "lookup fs g = Some Dir"
    "\<And>c. lookup fs (g @ [a]) \<noteq> Some (File c)" "\<And>c. lookup fs (g @ [a, b]) \<noteq> Some (File c)"
  shows "\<forall>k \<le> length (g @ [a, b]). \<forall>c. lookup fs (take k (g @ [a, b])) \<noteq> Some (File c)"
proof (intro allI impI)
  fix k c assume "k \<le> length (g @ [a, b])"
  then consider "k \<le> length g" | "k = Suc (length g)" | "k = Suc (Suc (length g))"
    by fastforce
  then show "lookup fs (take k (g @ [a, b])) \<noteq> Some (File c)"
  proof cases
    case 1
    then have "take k (g @ [a, b]) = take k g" by simp
    with wf_fs_prefix_dir[OF assms(1,2), of k] show ?thesis by simp
  next
    case 2
    then have "take k (g @ [a, b]) = g @ [a]" by simp
    with assms(3) show ?thesis by simp
  next
    case 3
    then have "take k (g @ [a, b]) = g @ [a, b]" by simp
    with assms(4) show ?thesis by simp
  qed
qed

text \<open>
  C7. Let a first \<^verbatim>\<open>initialize_experiment\<close> with the default generator have returned,
  in a well-formed filesystem that nothing else changes before the second call. The
  second call computes an identifier again and fails or returns exactly as it would on
  an instance that was never initialized: the paths of the first call are not read. When
  it returns, the experiment directory of the instance is the one of the second
  identifier. With auto-commit disabled it returns unless a regular file sits at the new
  experiment directory or at its logs path. The two identifiers differ when the clock
  readings are at least one second apart, and are equal when the readings fall in the
  same second and the entry count of the group directory is the same at both calls.
\<close>

theorem second_initialize:
  assumes "initialize_experiment sh self w = (Inr (), self1, w1)"
    and "wf_fs (files w)"
    and "files w2 = files w1"
    and "id_generator self = DefaultGen"
    and "valid_datetime (clock w)" and "valid_datetime (clock w2)"
  shows "\<exists>id1 id2.
     call_id_generator self w = Inr id1 \<and>
     experiment_directory self1 = Value (group_dir self @ [id1]) \<and>
     call_id_generator self1 w2 = Inr id2 \<and>
     fst (initialize_experiment sh self1 w2) = fst (initialize_experiment sh self w2) \<and>
     snd (snd (initialize_experiment sh self1 w2)) = snd (snd (initialize_experiment sh self w2)) \<and>
     (\<forall>self2 w3. initialize_experiment sh self1 w2 = (Inr (), self2, w3) \<longrightarrow>
        experiment_directory self2 = Value (group_dir self @ [id2])) \<and>
     (\<not> auto_commit_git self \<and>
      (\<forall>c. lookup (files w2) (group_dir self @ [id2]) \<noteq> Some (File c)) \<and>
      (\<forall>c. lookup (files w2) (group_dir self @ [id2, LOGS_NAME]) \<noteq> Some (File c)) \<longrightarrow>
        (\<exists>self2 w3. initialize_experiment sh self1 w2 = (Inr (), self2, w3))) \<and>
     (1000000 \<le> \<bar>total_microseconds (clock w2) - total_microseconds (clock w)\<bar> \<longrightarrow> id2 \<noteq> id1) \<and>
     (same_second (clock w) (clock w2) \<and>
      get_experiment_index self1 w2 = get_experiment_index self w \<longrightarrow> id2 = id1)"
proof -
  let ?g = "group_dir self"
  from initialize_experiment_Inr[OF assms(1)] obtain id1 fs1 where
    i1: "call_id_generator self w = Inr id1" and
    s1: "self1 = self\<lparr>experiment_directory := Value (?g @ [id1]),
                  logs_dir := Value (?g @ [id1, LOGS_NAME]),
                  output_dir := Some (?g @ [id1, outputs_name self])\<rparr>"
    by blast
  have e1: "experiment_directory self1 = Value (?g @ [id1])" by (simp add: s1)
  have f1: "id_generator self1 = DefaultGen" "group_dir self1 = ?g"
    "auto_commit_git self1 = auto_commit_git self"
    using assms(4) by (simp_all add: s1)
  from initialize_experiment_dirs[OF assms(1,2)] i1
  have d1: "lookup (files w1) (?g @ [id1]) = Some Dir" by auto
  have wf1: "wf_fs (files w1)" using assms(1,2) by (rule initialize_experiment_wf)
  from wf_fs_ancestors[OF wf1, of ?g "[id1]"] d1
  have gd: "lookup (files w2) ?g = Some Dir" by (simp add: assms(3))
  have wf2: "wf_fs (files w2)" using wf1 by (simp add: assms(3))
  from gd f1 obtain id2 where i2: "call_id_generator self1 w2 = Inr id2"
    by (simp add: call_id_generator_def default_id_generator_def get_experiment_index_def
          path_exists_def Path_iterdir_def)
  have dg1: "default_id_generator self w = Inr id1"
    using i1 assms(4) by (simp add: call_id_generator_def)
  have dg2: "default_id_generator self1 w2 = Inr id2"
    using i2 f1 by (simp add: call_id_generator_def)
  note re = initialize_experiment_reinitialize[where sh = sh and self = self
      and a = "Value (?g @ [id1])" and b = "Value (?g @ [id1, LOGS_NAME])"
      and c = "Some (?g @ [id1, outputs_name self])" and w = w2, folded s1]
  have repl: "\<forall>self2 w3. initialize_experiment sh self1 w2 = (Inr (), self2, w3) \<longrightarrow>
        experiment_directory self2 = Value (?g @ [id2])"
  proof (intro allI impI)
    fix self2 w3 assume "initialize_experiment sh self1 w2 = (Inr (), self2, w3)"
    from initialize_experiment_Inr[OF this] i2 f1
    show "experiment_directory self2 = Value (?g @ [id2])" by auto
  qed
  have succ: "\<not> auto_commit_git self \<and>
      (\<forall>c. lookup (files w2) (?g @ [id2]) \<noteq> Some (File c)) \<and>
      (\<forall>c. lookup (files w2) (?g @ [id2, LOGS_NAME]) \<noteq> Some (File c)) \<longrightarrow>
        (\<exists>self2 w3. initialize_experiment sh self1 w2 = (Inr (), self2, w3))"
  proof
    assume a: "\<not> auto_commit_git self \<and>
      (\<forall>c. lookup (files w2) (?g @ [id2]) \<noteq> Some (File c)) \<and>
      (\<forall>c. lookup (files w2) (?g @ [id2, LOGS_NAME]) \<noteq> Some (File c))"
    then have "\<forall>k \<le> length (?g @ [id2, LOGS_NAME]). \<forall>c.
                 lookup (files w2) (take k (?g @ [id2, LOGS_NAME])) \<noteq> Some (File c)"
      using no_file_on_the_way[OF wf2 gd, of id2 LOGS_NAME] by blast
    from Path_mkdir_succeeds[OF this] obtain fs2 where
      "Path_mkdir True True (files w2) (group_dir self1 @ [id2, LOGS_NAME]) = (Inr (), fs2)"
      using f1 by auto
    from initialize_experiment_no_commit[OF _ i2 this, of sh] a f1
    show "\<exists>self2 w3. initialize_experiment sh self1 w2 = (Inr (), self2, w3)" by simp
  qed
  have dist: "1000000 \<le> \<bar>total_microseconds (clock w2) - total_microseconds (clock w)\<bar> \<longrightarrow> id2 \<noteq> id1"
    using default_ids_distinct[OF dg1 dg2 assms(5,6)] by blast
  have coll: "same_second (clock w) (clock w2) \<and>
      get_experiment_index self1 w2 = get_experiment_index self w \<longrightarrow> id2 = id1"
    using default_ids_collide[OF dg1 dg2] by simp
  from i1 e1 i2 re repl succ dist coll show ?thesis by blast
qed


lemma collision_initialized_eq:
  "collision_initialized =
     (Inr (),
      example_self\<lparr>experiment_directory := Value [''exp'', ''grp'', ''1_2024-01-02_03-04-05''],
                   logs_dir := Value [''exp'', ''grp'', ''1_2024-01-02_03-04-05'', ''logs''],
                   output_dir := Some [''exp'', ''grp'', ''1_2024-01-02_03-04-05'', ''checkpoints'']\<rparr>,
      example_world\<lparr>
         files := [([''exp''], Dir), ([''exp'', ''grp''], Dir),
                   ([''exp'', ''grp'', ''1_2024-01-02_03-04-05''], Dir),
                   ([''exp'', ''grp'', ''1_2024-01-02_03-04-05'', ''logs''], Dir)],
         log_calls := [\<lparr>le_logger = RootLogger, le_level = INFO,
                         le_message = ''Initializing experiment: grp/run'', le_exc_info = None\<rparr>]\<rparr>)"
  by (simp add: collision_initialized_def collision_world_def example_self_def example_world_def
        example_stamp class_defs fs_defs str_nat_digit digit_char_def Path_mkdir.simps)

theorem second_initialize_witness:
  "(\<exists>id1 id2.
      call_id_generator example_self (example_world\<lparr>root_level := DEBUG\<rparr>) = Inr id1 \<and>
      call_id_generator (fst (snd example_initialized))
        ((snd (snd example_initialized))\<lparr>clock := example_clock_later\<rparr>) = Inr id2 \<and>
      id2 \<noteq> id1 \<and>
      (\<exists>self2 w3. initialize_experiment example_shell (fst (snd example_initialized))
                     ((snd (snd example_initialized))\<lparr>clock := example_clock_later\<rparr>)
                   = (Inr (), self2, w3))) \<and>
   (\<exists>id1 id2.
      call_id_generator example_self collision_world = Inr id1 \<and>
      call_id_generator (fst (snd collision_initialized)) (snd (snd collision_initialized)) = Inr id2 \<and>
      id2 = id1)"
proof -
  let ?start = "example_world\<lparr>root_level := DEBUG\<rparr>"
  let ?self1 = "fst (snd example_initialized)" and ?w1 = "snd (snd example_initialized)"
  let ?w2 = "?w1\<lparr>clock := example_clock_later\<rparr>"
  have dg: "id_generator example_self = DefaultGen"
    and g: "group_dir example_self = [''exp'', ''grp'']"
    and na: "\<not> auto_commit_git example_self"
    by (simp_all add: example_self_def assign_attributes_def default_custom_id_generator_def
          default_auto_commit_git_def)
  have v1: "valid_datetime example_clock" and v2: "valid_datetime example_clock_later"
    by (simp_all add: valid_datetime_def example_clock_def example_clock_later_def)
  have far: "1000000 \<le> \<bar>total_microseconds example_clock_later - total_microseconds example_clock\<bar>"
    by (simp add: total_microseconds_def toordinal_def example_clock_def example_clock_later_def)
  \<comment> \<open>one second apart\<close>
  have a1: "initialize_experiment example_shell example_self ?start = (Inr (), ?self1, ?w1)"
    unfolding example_initialized_def[symmetric] by (simp add: example_initialized_eq)
  have a2: "wf_fs (files ?start)" by (simp add: example_world_def wf_fs_def)
  have a3: "files ?w2 = files ?w1" by simp
  have a5: "valid_datetime (clock ?start)" using v1 by (simp add: example_world_def)
  have a6: "valid_datetime (clock ?w2)" using v2 by simp
  have c1: "clock ?start = example_clock" "clock ?w2 = example_clock_later"
    by (simp_all add: example_world_def)
  from second_initialize[OF a1 a2 a3 dg a5 a6] obtain id1 id2 where
    b1: "call_id_generator example_self ?start = Inr id1" and
    b2: "call_id_generator ?self1 ?w2 = Inr id2" and
    b3: "1000000 \<le> \<bar>total_microseconds (clock ?w2) - total_microseconds (clock ?start)\<bar>
           \<longrightarrow> id2 \<noteq> id1" and
    b4: "\<not> auto_commit_git example_self \<and>
      (\<forall>c. lookup (files ?w2) (group_dir example_self @ [id2]) \<noteq> Some (File c)) \<and>
      (\<forall>c. lookup (files ?w2) (group_dir example_self @ [id2, LOGS_NAME]) \<noteq> Some (File c)) \<longrightarrow>
        (\<exists>self2 w3. initialize_experiment example_shell ?self1 ?w2 = (Inr (), self2, w3))"
    by blast
  from b3 far c1 have ne: "id2 \<noteq> id1" by simp
  have nofile: "\<And>q c. lookup (files ?w2) q \<noteq> Some (File c)"
    by (simp add: example_initialized_eq lookup_def)
  from b4 na nofile
  have ok: "\<exists>self2 w3. initialize_experiment example_shell ?self1 ?w2 = (Inr (), self2, w3)"
    by blast
  from b1 b2 ne ok have first: "\<exists>id1 id2.
      call_id_generator example_self ?start = Inr id1 \<and>
      call_id_generator ?self1 ?w2 = Inr id2 \<and> id2 \<noteq> id1 \<and>
      (\<exists>self2 w3. initialize_experiment example_shell ?self1 ?w2 = (Inr (), self2, w3))"
    by blast
  \<comment> \<open>the same second and the same entry count\<close>
  let ?c1 = "fst (snd collision_initialized)" and ?cw = "snd (snd collision_initialized)"
  have k1: "initialize_experiment example_shell example_self collision_world = (Inr (), ?c1, ?cw)"
    unfolding collision_initialized_def[symmetric] by (simp add: collision_initialized_eq)
  have k2: "wf_fs (files collision_world)"
    by (simp add: collision_world_def wf_fs_def lookup_def)
  have k5: "valid_datetime (clock collision_world)"
    using v1 by (simp add: collision_world_def example_world_def)
  have k6: "valid_datetime (clock ?cw)"
    using v1 by (simp add: collision_initialized_eq example_world_def)
  have same: "same_second (clock collision_world) (clock ?cw)"
    by (simp add: same_second_def collision_initialized_eq collision_world_def)
  have cnt: "get_experiment_index ?c1 ?cw = get_experiment_index example_self collision_world"
    by (simp add: collision_initialized_eq collision_world_def get_experiment_index_def g
          fs_defs)
  from second_initialize[OF k1 k2 refl dg k5 k6] obtain j1 j2 where
    m1: "call_id_generator example_self collision_world = Inr j1" and
    m2: "call_id_generator ?c1 ?cw = Inr j2" and
    m3: "same_second (clock collision_world) (clock ?cw) \<and>
      get_experiment_index ?c1 ?cw = get_experiment_index example_self collision_world \<longrightarrow> j2 = j1"
    by blast
  from m3 same cnt have "j2 = j1" by blast
  with m1 m2 have second: "\<exists>id1 id2.
      call_id_generator example_self collision_world = Inr id1 \<and>
      call_id_generator ?c1 ?cw = Inr id2 \<and> id2 = id1"
    by blast
  from first second show ?thesis by blast
qed

end
